theory Spec2Isabelle
  imports Complex_Main "HOL-Library.Sublist"
begin

section \<open>Common data\<close>

text \<open>
  A Go \<^verbatim>\<open>error\<close> value is represented by its message (what \<^verbatim>\<open>err.Error()\<close>
  returns); the \<^verbatim>\<open>nil\<close> error is \<open>None\<close>. Strings are byte lists.
\<close>

type_synonym error = string

section \<open>Retry classification (downloader, \<^verbatim>\<open>src/jsonformatter/json.go\<close>)\<close>

subsection \<open>\<^verbatim>\<open>isRetryableHTTPStatus\<close>\<close>

definition retryableStatusCodes :: "int list" where
  "retryableStatusCodes = [429, 500, 502, 503, 504]"

text \<open>The \<^verbatim>\<open>for _, code := range retryableStatusCodes\<close> loop with its early return.\<close>

fun statusLoop :: "int \<Rightarrow> int list \<Rightarrow> bool" where
  "statusLoop statusCode [] = False"
| "statusLoop statusCode (code # codes) =
     (if statusCode = code then True else statusLoop statusCode codes)"

definition isRetryableHTTPStatus :: "int \<Rightarrow> bool" where
  "isRetryableHTTPStatus statusCode = statusLoop statusCode retryableStatusCodes"

subsection \<open>\<^verbatim>\<open>isRetryableError\<close>\<close>

text \<open>
  \<^verbatim>\<open>strings.ToLower\<close> on the bytes of the message: the ASCII capitals are folded, every
  other byte is kept (messages are taken to be ASCII; Go would also fold capitals outside ASCII).
\<close>

definition toLowerByte :: "char \<Rightarrow> char" where
  "toLowerByte c =
     (if (65::nat) \<le> of_char c \<and> of_char c \<le> (90::nat)
      then char_of (of_char c + (32::nat)) else c)"

definition ToLower :: "string \<Rightarrow> string" where
  "ToLower s = map toLowerByte s"

text \<open>\<^verbatim>\<open>strings.Contains s substr\<close>: \<open>substr\<close> occurs in \<open>s\<close> at some position.\<close>

fun Contains :: "string \<Rightarrow> string \<Rightarrow> bool" where
  "Contains [] substr = (substr = [])"
| "Contains (c # cs) substr = (prefix substr (c # cs) \<or> Contains cs substr)"

definition retryableErrors :: "string list" where
  "retryableErrors =
     [''timeout'', ''connection reset'', ''connection refused'',
      ''temporary failure'', ''no route to host'', ''network is unreachable'']"

text \<open>The \<^verbatim>\<open>for _, retryable := range retryableErrors\<close> loop with its early return.\<close>

fun retryableLoop :: "string \<Rightarrow> string list \<Rightarrow> bool" where
  "retryableLoop errStr [] = False"
| "retryableLoop errStr (retryable # rest) =
     (if Contains (ToLower errStr) retryable then True else retryableLoop errStr rest)"

definition isRetryableError :: "error option \<Rightarrow> bool" where
  "isRetryableError err =
     (case err of None \<Rightarrow> False
      | Some errStr \<Rightarrow> retryableLoop errStr retryableErrors)"

section \<open>URL list loading (downloader, \<^verbatim>\<open>loadURLsFromFile\<close>)\<close>

text \<open>
  \<^verbatim>\<open>strings.ReplaceAll s old new\<close>: the non-overlapping occurrences of \<open>old\<close>, found
  from the left, are replaced. With an empty \<open>old\<close> Go inserts \<open>new\<close> in front of the
  string and after every character.
\<close>

fun ReplaceAll :: "string \<Rightarrow> string \<Rightarrow> string \<Rightarrow> string" where
  "ReplaceAll s [] new = new @ concat (map (\<lambda>c. c # new) s)"
| "ReplaceAll [] (k # ks) new = []"
| "ReplaceAll (c # cs) (k # ks) new =
     (if prefix (k # ks) (c # cs)
      then new @ ReplaceAll (drop (length ks) cs) (k # ks) new
      else c # ReplaceAll cs (k # ks) new)"

text \<open>The backslash of the Go literals \<^verbatim>\<open>"\\u0026"\<close> etc. is the byte \<open>0x5C\<close>.\<close>

definition fixUnicodeEscapes :: "string \<Rightarrow> string" where
  "fixUnicodeEscapes str =
     (let str = ReplaceAll str (CHR 0x5C # ''u0026'') ''&'';
          str = ReplaceAll str (CHR 0x5C # ''u003d'') ''='';
          str = ReplaceAll str (CHR 0x5C # ''u003f'') ''?'';
          str = ReplaceAll str (CHR 0x5C # ''u007e'') ''~''
      in str)"

definition isURL :: "string \<Rightarrow> bool" where
  "isURL str = (prefix ''http://'' str \<or> prefix ''https://'' str)"

text \<open>
  What the operating system and \<^verbatim>\<open>bufio.Scanner\<close> hand to \<^verbatim>\<open>loadURLsFromFile\<close>:
  either \<^verbatim>\<open>os.Open\<close> fails, or the scanner yields the lines of the file in order and
  then stops, with \<^verbatim>\<open>scanner.Err()\<close> nil or not (a read error, or a line longer than
  the scanner's buffer).
\<close>

record scannedFile =
  scanned :: "string list"
  scanErr :: "error option"

text \<open>The \<^verbatim>\<open>for scanner.Scan()\<close> loop; \<open>urls\<close> is the slice being appended to.\<close>

fun scanLoop :: "string list \<Rightarrow> string list \<Rightarrow> string list" where
  "scanLoop [] urls = urls"
| "scanLoop (line # rest) urls =
     (if line \<noteq> [] \<and> \<not> prefix ''#'' line then
        (let cleanedURL = fixUnicodeEscapes line in
         if isURL cleanedURL then scanLoop rest (urls @ [cleanedURL])
         else scanLoop rest urls)
      else scanLoop rest urls)"

definition loadURLsFromFile :: "error + scannedFile \<Rightarrow> error + string list" where
  "loadURLsFromFile opened =
     (case opened of
        Inl err \<Rightarrow> Inl err
      | Inr file \<Rightarrow>
          (let urls = scanLoop (scanned file) [] in
           case scanErr file of
             Some err \<Rightarrow> Inl err
           | None \<Rightarrow> Inr urls))"

text \<open>
  The lines the loop keeps, as a predicate of the line: not empty, not a comment, and a URL
  once the escapes are replaced.
\<close>

definition keptLine :: "string \<Rightarrow> bool" where
  "keptLine line =
     (line \<noteq> [] \<and> \<not> prefix ''#'' line \<and> isURL (fixUnicodeEscapes line))"

section \<open>Backoff delay (downloader, \<^verbatim>\<open>calculateBackoffDelay\<close>)\<close>

text \<open>
  A \<^verbatim>\<open>time.Duration\<close> is an integer count of nanoseconds. The arithmetic of
  \<^verbatim>\<open>float64\<close> is not defined here: the values of that type form the type \<open>'f\<close>, and
  the operations the function uses are taken as they are, in a record. \<open>round64 q\<close> is the
  \<^verbatim>\<open>float64\<close> that a conversion or a constant yields for the number \<open>q\<close>
  (\<^verbatim>\<open>float64(x)\<close> for an integer \<open>x\<close>, the constants \<^verbatim>\<open>2\<close>, \<^verbatim>\<open>1\<close>, \<^verbatim>\<open>0.1\<close>);
  \<open>Pow\<close> is \<^verbatim>\<open>math.Pow\<close>; \<open>fmul\<close>, \<open>fadd\<close>, \<open>fsub\<close> and \<open>fgreater\<close> are
  \<^verbatim>\<open>*\<close>, \<^verbatim>\<open>+\<close>, \<^verbatim>\<open>-\<close> and \<^verbatim>\<open>>\<close> on \<^verbatim>\<open>float64\<close>; \<open>toInt64\<close> is the conversion
  \<^verbatim>\<open>time.Duration(delay)\<close>.
\<close>

record 'f float64 =
  round64 :: "rat \<Rightarrow> 'f"
  Pow :: "'f \<Rightarrow> 'f \<Rightarrow> 'f"
  fmul :: "'f \<Rightarrow> 'f \<Rightarrow> 'f"
  fadd :: "'f \<Rightarrow> 'f \<Rightarrow> 'f"
  fsub :: "'f \<Rightarrow> 'f \<Rightarrow> 'f"
  fgreater :: "'f \<Rightarrow> 'f \<Rightarrow> bool"
  toInt64 :: "'f \<Rightarrow> int"

record 'f RetryConfig =
  MaxRetries :: int
  InitialDelay :: int
  MaxDelay :: int
  BackoffFactor :: 'f
  JitterFactor :: 'f

definition defaultRetryConfig :: "'f float64 \<Rightarrow> 'f RetryConfig" where
  "defaultRetryConfig fl =
     \<lparr>MaxRetries = 3, InitialDelay = 1000000000, MaxDelay = 30000000000,
      BackoffFactor = round64 fl 2, JitterFactor = round64 fl (1 / 10)\<rparr>"

text \<open>
  The last argument is the value that \<^verbatim>\<open>rand.Float64()\<close> returns in this call; it is not
  consulted for \<open>attempt \<le> 0\<close>.
\<close>

definition calculateBackoffDelay ::
  "'f float64 \<Rightarrow> int \<Rightarrow> 'f RetryConfig \<Rightarrow> 'f \<Rightarrow> int" where
  "calculateBackoffDelay fl attempt config rnd =
     (if attempt \<le> 0 then InitialDelay config
      else
        (let delay = fmul fl (round64 fl (of_int (InitialDelay config)))
                       (Pow fl (BackoffFactor config) (round64 fl (of_int attempt)));
             jitter = fmul fl (fmul fl delay (JitterFactor config))
                        (fsub fl (fmul fl rnd (round64 fl 2)) (round64 fl 1));
             delay = fadd fl delay jitter;
             delay = (if fgreater fl delay (round64 fl (of_int (MaxDelay config)))
                      then round64 fl (of_int (MaxDelay config)) else delay)
         in toInt64 fl delay))"

text \<open>
  An arithmetic without rounding, on the rational numbers, for examples; the conversion to
  an integer drops the fraction.
\<close>

definition exactArith :: "rat float64" where
  "exactArith =
     \<lparr>round64 = (\<lambda>q. q),
      Pow = (\<lambda>x y. x ^ nat \<lfloor>y\<rfloor>),
      fmul = (\<lambda>x y. x * y),
      fadd = (\<lambda>x y. x + y),
      fsub = (\<lambda>x y. x - y),
      fgreater = (\<lambda>x y. x > y),
      toInt64 = (\<lambda>x. if 0 \<le> x then \<lfloor>x\<rfloor> else \<lceil>x\<rceil>)\<rparr>"

section \<open>Single download (downloader, \<^verbatim>\<open>downloadFile\<close> with retries)\<close>

record DownloadResult =
  URL :: string
  Success :: bool
  Error :: "error option"
  FilePath :: string
  Retries :: int

text \<open>
  \<^verbatim>\<open>strings.Split s sep\<close> for a one-byte separator. The result is never empty.
\<close>

fun Split :: "string \<Rightarrow> char \<Rightarrow> string list" where
  "Split [] sep = [[]]"
| "Split (c # cs) sep =
     (if c = sep then [] # Split cs sep
      else (case Split cs sep of
              part # parts \<Rightarrow> (c # part) # parts
            | [] \<Rightarrow> [[c]]))"

text \<open>The file name taken from the URL's path: its last segment, or a fallback.\<close>

definition fileNameOf :: "string \<Rightarrow> string" where
  "fileNameOf path =
     (let pathParts = Split path (CHR ''/'');
          filename = last pathParts
      in if filename = [] then ''unknown_file'' else filename)"

text \<open>
  What the outside world does in one pass of the retry loop: \<^verbatim>\<open>httpClient.Get\<close> fails
  with a transport error or returns a response with a status code; \<^verbatim>\<open>os.Create\<close> and
  \<^verbatim>\<open>io.CopyBuffer\<close> fail or not.
\<close>

record attemptIO =
  getResult :: "error + int"
  createResult :: "error option"
  copyResult :: "error option"

text \<open>
  The library functions and the outside world the download depends on:
  \<^verbatim>\<open>url.Parse\<close> (giving the \<^verbatim>\<open>Path\<close> of the parsed URL), \<^verbatim>\<open>filepath.Join\<close>, the
  outcome of each pass of the retry loop, the arithmetic of \<^verbatim>\<open>float64\<close>, and the random
  sample drawn in each pass.
\<close>

record 'f world =
  parseURL :: "string \<Rightarrow> error + string"
  joinPath :: "string \<Rightarrow> string \<Rightarrow> string"
  outcome :: "int \<Rightarrow> attemptIO"
  arith :: "'f float64"
  sample :: "int \<Rightarrow> 'f"

text \<open>What a download does to the outside world, in order.\<close>

datatype effect =
    Sleep int
  | HttpGet string
  | CloseBody
  | CreateFile string
  | CopyBody string
  | CloseFile
  | RemoveFile string

text \<open>\<^verbatim>\<open>fmt.Errorf("HTTP status %d", code)\<close>: the decimal digits of the code.\<close>

fun digitsOf :: "nat \<Rightarrow> string" where
  "digitsOf n =
     (if n < 10 then [char_of (48 + n)]
      else digitsOf (n div 10) @ [char_of (48 + n mod 10)])"

definition showInt :: "int \<Rightarrow> string" where
  "showInt i = (if i < 0 then ''-'' @ digitsOf (nat (- i)) else digitsOf (nat i))"

text \<open>
  One pass of the body of \<^verbatim>\<open>for attempt := 0; attempt <= MaxRetries; attempt++\<close>: it
  either comes to \<^verbatim>\<open>continue\<close> or returns, with the result record as it stands and the
  effects of this pass.
\<close>

datatype pass = Continue DownloadResult "effect list" | Return DownloadResult "effect list"

definition attemptBody ::
  "'f world \<Rightarrow> 'f RetryConfig \<Rightarrow> string \<Rightarrow> string \<Rightarrow> int \<Rightarrow> DownloadResult \<Rightarrow> pass" where
  "attemptBody w config urlString filePath attempt result =
     (let slept = (if attempt > 0
                   then [Sleep (calculateBackoffDelay (arith w) (attempt - 1) config
                                  (sample w attempt))]
                   else [])
      in case getResult (outcome w attempt) of
           Inl err \<Rightarrow>
             (let result = result\<lparr>Error := Some (''HTTP request failed: '' @ err),
                                  Retries := attempt\<rparr>
              in if isRetryableError (Some err) \<and> attempt < MaxRetries config
                 then Continue result (slept @ [HttpGet urlString])
                 else Return result (slept @ [HttpGet urlString]))
         | Inr statusCode \<Rightarrow>
             if statusCode \<noteq> 200 then
               (let result = result\<lparr>Error := Some (''HTTP status '' @ showInt statusCode),
                                    Retries := attempt\<rparr>
                in if isRetryableHTTPStatus statusCode \<and> attempt < MaxRetries config
                   then Continue result (slept @ [HttpGet urlString, CloseBody])
                   else Return result (slept @ [HttpGet urlString, CloseBody]))
             else
               (case createResult (outcome w attempt) of
                  Some err \<Rightarrow>
                    Return (result\<lparr>Error := Some (''failed to create file: '' @ err),
                                    Retries := attempt\<rparr>)
                      (slept @ [HttpGet urlString, CreateFile filePath, CloseBody])
                | None \<Rightarrow>
                    (case copyResult (outcome w attempt) of
                       Some err \<Rightarrow>
                         Return (result\<lparr>Error := Some (''failed to write file: '' @ err),
                                         Retries := attempt\<rparr>)
                           (slept @ [HttpGet urlString, CreateFile filePath, CopyBody filePath,
                                     CloseBody, CloseFile, RemoveFile filePath])
                     | None \<Rightarrow>
                         Return (result\<lparr>Success := True, FilePath := filePath,
                                         Retries := attempt\<rparr>)
                           (slept @ [HttpGet urlString, CreateFile filePath, CopyBody filePath,
                                     CloseBody, CloseFile]))))"

text \<open>The retry loop, from pass \<open>attempt\<close> on, and the statements after it.\<close>

function attemptLoop ::
  "'f world \<Rightarrow> 'f RetryConfig \<Rightarrow> string \<Rightarrow> string \<Rightarrow> int \<Rightarrow> DownloadResult
     \<Rightarrow> DownloadResult \<times> effect list" where
  "attemptLoop w config urlString filePath attempt result =
     (if attempt \<le> MaxRetries config then
        (case attemptBody w config urlString filePath attempt result of
           Return result' effects \<Rightarrow> (result', effects)
         | Continue result' effects \<Rightarrow>
             (case attemptLoop w config urlString filePath (attempt + 1) result' of
                (final, later) \<Rightarrow> (final, effects @ later)))
      else (result\<lparr>Error := Some ''max retries exceeded'', Retries := MaxRetries config\<rparr>, []))"
  by pat_completeness auto
termination
  by (relation "measure (\<lambda>(w, config, urlString, filePath, attempt, result).
        nat (MaxRetries config + 1 - attempt))") auto

text \<open>A Go \<^verbatim>\<open>map[string]bool\<close> read at a key: a missing key reads as false.\<close>

definition present :: "(string \<rightharpoonup> bool) \<Rightarrow> string \<Rightarrow> bool" where
  "present m k = (case m k of Some b \<Rightarrow> b | None \<Rightarrow> False)"

definition downloadFile ::
  "'f world \<Rightarrow> string \<Rightarrow> string \<Rightarrow> (string \<rightharpoonup> bool) \<Rightarrow> DownloadResult \<times> effect list" where
  "downloadFile w urlString downloadDir existingFileMap =
     (let result = \<lparr>URL = urlString, Success = False, Error = None, FilePath = [],
                     Retries = 0\<rparr>
      in case parseURL w urlString of
           Inl err \<Rightarrow> (result\<lparr>Error := Some (''invalid URL: '' @ err)\<rparr>, [])
         | Inr path \<Rightarrow>
             (let filename = fileNameOf path;
                  filePath = joinPath w downloadDir filename
              in if present existingFileMap filename
                 then (result\<lparr>Success := True, FilePath := filePath\<rparr>, [])
                 else attemptLoop w (defaultRetryConfig (arith w)) urlString filePath 0 result))"

text \<open>
  \<^verbatim>\<open>buildExistingFileMap\<close>: \<^verbatim>\<open>os.ReadDir\<close> fails or lists the entries of the directory,
  each with its name and whether it is a directory.
\<close>

fun fileMapLoop :: "(string \<times> bool) list \<Rightarrow> (string \<rightharpoonup> bool) \<Rightarrow> (string \<rightharpoonup> bool)" where
  "fileMapLoop [] fileMap = fileMap"
| "fileMapLoop ((name, isDir) # files) fileMap =
     (if \<not> isDir then fileMapLoop files (fileMap(name \<mapsto> True))
      else fileMapLoop files fileMap)"

definition buildExistingFileMap :: "error + (string \<times> bool) list \<Rightarrow> (string \<rightharpoonup> bool)" where
  "buildExistingFileMap readDir =
     (case readDir of
        Inl err \<Rightarrow> Map.empty
      | Inr files \<Rightarrow> fileMapLoop files Map.empty)"

text \<open>
  \<^verbatim>\<open>downloadFiles\<close> starts one goroutine per URL; each sleeps 100 ms, calls
  \<^verbatim>\<open>downloadFile\<close> and stores the result at the URL's index. The goroutines share only
  the read-only map, so the slice of results is the list of the single results; the effects
  are kept per task (how the tasks interleave in time is not modelled), and \<open>ws i\<close> is the
  world the task at index \<open>i\<close> meets.
\<close>

fun downloadTasks ::
  "(nat \<Rightarrow> 'f world) \<Rightarrow> nat \<Rightarrow> string list \<Rightarrow> string \<Rightarrow> (string \<rightharpoonup> bool)
     \<Rightarrow> (DownloadResult \<times> effect list) list" where
  "downloadTasks ws index [] downloadDir existingFileMap = []"
| "downloadTasks ws index (urlString # urls) downloadDir existingFileMap =
     (case downloadFile (ws index) urlString downloadDir existingFileMap of
        (result, effects) \<Rightarrow>
          (result, Sleep 100000000 # effects)
            # downloadTasks ws (index + 1) urls downloadDir existingFileMap)"

definition downloadFiles ::
  "(nat \<Rightarrow> 'f world) \<Rightarrow> string list \<Rightarrow> string \<Rightarrow> (string \<rightharpoonup> bool)
     \<Rightarrow> (DownloadResult \<times> effect list) list" where
  "downloadFiles ws urls downloadDir existingFileMap =
     downloadTasks ws 0 urls downloadDir existingFileMap"

text \<open>The effects that reach the network or change the file system.\<close>

fun touchesOutside :: "effect \<Rightarrow> bool" where
  "touchesOutside (HttpGet u) = True"
| "touchesOutside (CreateFile p) = True"
| "touchesOutside (CopyBody p) = True"
| "touchesOutside (RemoveFile p) = True"
| "touchesOutside e = False"

text \<open>
  A pass whose request fails in a way the loop retries: a transport error that
  \<^verbatim>\<open>isRetryableError\<close> accepts, or a status other than 200 that
  \<^verbatim>\<open>isRetryableHTTPStatus\<close> accepts.
\<close>

definition retryable :: "attemptIO \<Rightarrow> bool" where
  "retryable io =
     (case getResult io of
        Inl e \<Rightarrow> isRetryableError (Some e)
      | Inr statusCode \<Rightarrow> statusCode \<noteq> 200 \<and> isRetryableHTTPStatus statusCode)"

text \<open>The requests among the effects, and the effects on files.\<close>

fun isGet :: "effect \<Rightarrow> bool" where
  "isGet (HttpGet u) = True"
| "isGet e = False"

fun onFile :: "effect \<Rightarrow> bool" where
  "onFile (CreateFile p) = True"
| "onFile (CopyBody p) = True"
| "onFile (RemoveFile p) = True"
| "onFile e = False"

text \<open>
  Two worlds for examples. In both the path of a URL is what follows its first 19
  characters (the host part \<^verbatim>\<open>https://example.com\<close>), and paths are joined with a slash.
  In the first every request is refused; in the second the first request is answered with
  status 503 and every later one with 200, after which the copy to the file fails. Both
  use the arithmetic without rounding.
\<close>

definition exampleWorld :: "rat world" where
  "exampleWorld =
     \<lparr>parseURL = (\<lambda>u. Inr (drop 19 u)),
      joinPath = (\<lambda>d f. d @ ''/'' @ f),
      outcome = (\<lambda>a. \<lparr>getResult = Inl ''connection refused'', createResult = None,
                        copyResult = None\<rparr>),
      arith = exactArith,
      sample = (\<lambda>a. 0)\<rparr>"

definition flakyWorld :: "rat world" where
  "flakyWorld =
     \<lparr>parseURL = (\<lambda>u. Inr (drop 19 u)),
      joinPath = (\<lambda>d f. d @ ''/'' @ f),
      outcome = (\<lambda>a. if a = 0
                      then \<lparr>getResult = Inr 503, createResult = None, copyResult = None\<rparr>
                      else \<lparr>getResult = Inr 200, createResult = None,
                            copyResult = Some ''no space left on device''\<rparr>),
      arith = exactArith,
      sample = (\<lambda>a. 1 / 2)\<rparr>"

section \<open>Salvaging decompression (\<^verbatim>\<open>robustDecompress\<close>)\<close>

text \<open>
  A call of \<^verbatim>\<open>gzipReader.Read\<close> returns some bytes and an error that is nil,
  \<^verbatim>\<open>io.EOF\<close> or something else. The reader of a finite file is modelled by the chunks of
  the calls that return a nil error, followed by the one call that does not.
\<close>

datatype readEnd = EOF | ReadError error

record gzipRun =
  openResult :: "error option"
  newReaderResult :: "error option"
  mkdirResult :: "error option"
  createOutput :: "error option"
  reads :: "string list"
  lastRead :: "string \<times> readEnd"
  writeResult :: "int \<Rightarrow> error option"

text \<open>
  The state of the loop: the bytes in the output file and the two counters. \<open>writeResult g k\<close>
  is the outcome of \<^verbatim>\<open>output.Write\<close> when \<open>k\<close> chunks have been written before.
\<close>

record copyState =
  outputBytes :: string
  totalBytes :: int
  chunkCount :: int

text \<open>The \<^verbatim>\<open>if n > 0\<close> block of the loop body.\<close>

definition writeChunk :: "gzipRun \<Rightarrow> string \<Rightarrow> copyState \<Rightarrow> error + copyState" where
  "writeChunk g chunk st =
     (if length chunk > 0 then
        (case writeResult g (chunkCount st) of
           Some writeErr \<Rightarrow> Inl (''failed to write to output: '' @ writeErr)
         | None \<Rightarrow>
             Inr (st\<lparr>outputBytes := outputBytes st @ chunk,
                     totalBytes := totalBytes st + int (length chunk),
                     chunkCount := chunkCount st + 1\<rparr>))
      else Inr st)"

text \<open>
  The read loop and the statements after it. The result is the returned error and the state
  at the return.
\<close>

fun readLoop :: "gzipRun \<Rightarrow> string list \<Rightarrow> copyState \<Rightarrow> error option \<times> copyState" where
  "readLoop g [] st =
     (case writeChunk g (fst (lastRead g)) st of
        Inl err \<Rightarrow> (Some err, st)
      | Inr st' \<Rightarrow>
          (case snd (lastRead g) of
             EOF \<Rightarrow> (None, st')
           | ReadError err \<Rightarrow>
               if totalBytes st' > 0 then (None, st')
               else (Some (''error reading gzip: '' @ err), st')))"
| "readLoop g (chunk # later) st =
     (case writeChunk g chunk st of
        Inl err \<Rightarrow> (Some err, st)
      | Inr st' \<Rightarrow> readLoop g later st')"

text \<open>
  The function returns its error; the second component is the content of the output file it
  leaves behind, \<open>None\<close> when the file was never created.
\<close>

definition robustDecompress :: "gzipRun \<Rightarrow> error option \<times> string option" where
  "robustDecompress g =
     (case openResult g of
        Some err \<Rightarrow> (Some (''failed to open file: '' @ err), None)
      | None \<Rightarrow>
     (case newReaderResult g of
        Some err \<Rightarrow> (Some (''failed to create gzip reader: '' @ err), None)
      | None \<Rightarrow>
     (case mkdirResult g of
        Some err \<Rightarrow> (Some (''failed to create output directory: '' @ err), None)
      | None \<Rightarrow>
     (case createOutput g of
        Some err \<Rightarrow> (Some (''failed to create output file: '' @ err), None)
      | None \<Rightarrow>
          (case readLoop g (reads g) \<lparr>outputBytes = [], totalBytes = 0, chunkCount = 0\<rparr> of
             (err, st) \<Rightarrow> (err, Some (outputBytes st)))))))"

section \<open>Collecting results and the ledger (scanner, \<^verbatim>\<open>main\<close>)\<close>

text \<open>
  The same statements stand in the \<^verbatim>\<open>main\<close> of \<^verbatim>\<open>src/pipeline/billingCode.go\<close> and of
  the streaming scanner in \<^verbatim>\<open>src/unnamed/part_001\<close>.
\<close>

record result =
  fileName :: string
  recordsFound :: int
  err :: "error option"

record collectState =
  processedFiles :: "string \<rightharpoonup> bool"
  totalNewRecords :: int
  filesProcessed :: int

text \<open>The body of the loop that receives one result from the channel.\<close>

definition collectOne :: "result \<Rightarrow> collectState \<Rightarrow> collectState" where
  "collectOne res st =
     (let st = st\<lparr>filesProcessed := filesProcessed st + 1\<rparr>
      in if err res \<noteq> None then st
         else
           (let st = (if recordsFound res > 0
                      then st\<lparr>totalNewRecords := totalNewRecords st + recordsFound res\<rparr>
                      else st)
            in st\<lparr>processedFiles := (processedFiles st)(fileName res \<mapsto> True)\<rparr>))"

text \<open>The loop, over the results in the order in which they arrive.\<close>

fun collectResults :: "result list \<Rightarrow> collectState \<Rightarrow> collectState" where
  "collectResults [] st = st"
| "collectResults (res # rest) st = collectResults rest (collectOne res st)"

text \<open>
  \<^verbatim>\<open>saveProcessedFiles\<close>: the ledger file holds a JSON array of the keys of the map, in the
  order of Go's map iteration, which is not fixed; the model keeps the set of names. The
  arguments are the map, the outcomes of \<^verbatim>\<open>os.Create\<close> and of \<^verbatim>\<open>encoder.Encode\<close>, and the
  names in the ledger before. \<^verbatim>\<open>os.Create\<close> empties the file.
\<close>

definition saveProcessedFiles ::
  "(string \<rightharpoonup> bool) \<Rightarrow> error option \<Rightarrow> error option \<Rightarrow> string set
     \<Rightarrow> error option \<times> string set" where
  "saveProcessedFiles files createErr encodeErr ledger =
     (case createErr of
        Some e \<Rightarrow> (Some e, ledger)
      | None \<Rightarrow>
          (case encodeErr of
             Some e \<Rightarrow> (Some e, {})
           | None \<Rightarrow> (None, dom files)))"

text \<open>
  The end of \<^verbatim>\<open>main\<close>: collect, then save once; a failed save is only reported. The result
  is the map in memory and the ledger on disk.
\<close>

definition collectAndSave ::
  "result list \<Rightarrow> (string \<rightharpoonup> bool) \<Rightarrow> error option \<Rightarrow> error option \<Rightarrow> string set
     \<Rightarrow> (string \<rightharpoonup> bool) \<times> string set" where
  "collectAndSave results loaded createErr encodeErr ledger =
     (let st = collectResults results
                 \<lparr>processedFiles = loaded, totalNewRecords = 0, filesProcessed = 0\<rparr>
      in (processedFiles st,
          snd (saveProcessedFiles (processedFiles st) createErr encodeErr ledger)))"

section \<open>Scanning one file for matching records\<close>

subsection \<open>Decoded JSON and the match test\<close>

text \<open>
  The values \<^verbatim>\<open>encoding/json\<close> decodes into \<^verbatim>\<open>interface{}\<close>. An object is a
  \<^verbatim>\<open>map[string]interface{}\<close>, kept here as the list of its entries; Go ranges over a map in
  no fixed order, the model in the order of the list.
\<close>

datatype json =
    JNull
  | JBool bool
  | JNumber real
  | JString string
  | JArray "json list"
  | JObject "(string \<times> json) list"

type_synonym jsonObject = "(string \<times> json) list"

definition targetCodes :: "string \<rightharpoonup> bool" where
  "targetCodes =
     [''99283'' \<mapsto> True, ''99284'' \<mapsto> True, ''99285'' \<mapsto> True, ''99291'' \<mapsto> True]"

text \<open>
  The test \<^verbatim>\<open>billingCode, exists := record["billing_code"].(string); exists && targetCodes[billingCode]\<close>.
\<close>

definition isMatch :: "jsonObject \<Rightarrow> bool" where
  "isMatch record =
     (case map_of record ''billing_code'' of
        Some (JString billingCode) \<Rightarrow> present targetCodes billingCode
      | _ \<Rightarrow> False)"

text \<open>The closure \<^verbatim>\<open>search\<close> of \<^verbatim>\<open>findMatchingObjectsRecursive\<close>, returning what it appends.\<close>

fun search :: "json \<Rightarrow> jsonObject list" where
  "search (JObject v) =
     (if isMatch v then [v] else []) @ concat (map (\<lambda>entry. search (snd entry)) v)"
| "search (JArray v) = concat (map search v)"
| "search d = []"

definition findMatchingObjectsRecursive :: "json \<Rightarrow> jsonObject list" where
  "findMatchingObjectsRecursive data = search data"

subsection \<open>What a scan reads and writes\<close>

text \<open>
  The JSON decoder is library code; the model takes what its calls return. A scanned file
  is given by: the outcome of opening it; its first bytes (up to the first byte that is not
  white space, at least), and the error, if not end of file, that reading past them meets;
  what \<^verbatim>\<open>decoder.Token()\<close> returns for the opening bracket; the values that follow, as
  the decoder meets them, up to the end of the array or of the input; and what
  \<^verbatim>\<open>encoder.Encode\<close> returns when \<open>k\<close> records of this file have been written before.

  A value the decoder meets is of one of three kinds.
  \<^item> \<open>Decoded obj\<close>: the value is read and decodes into the map.
  \<^item> \<open>Rejected e\<close>: the value is read whole, but it does not fit the map (a number or a
    string, say); \<^verbatim>\<open>Decode\<close> returns the error \<open>e\<close> and the decoder has moved past the
    value. (For the calls made here, the same holds of an error at the very end after which
    \<^verbatim>\<open>More\<close> is false, as at the closing bracket after a trailing comma.)
  \<^item> \<open>Stuck e\<close>: reading the value fails with \<open>e\<close> (a syntax error, a missing comma, an
    unexpected end of the input, a read error); the decoder does not move past it: every
    later \<^verbatim>\<open>Decode\<close> returns the error again and \<^verbatim>\<open>More\<close> stays true.
\<close>

datatype decoded = Decoded jsonObject | Rejected error | Stuck error

text \<open>
  The state of a \<^verbatim>\<open>json.Decoder\<close>: the values still to come, and the error it is stuck
  on, if any. \<^verbatim>\<open>More\<close> looks for a next value; \<^verbatim>\<open>Decode\<close> returns the decoded object or
  an error (the error \<^verbatim>\<open>io.EOF\<close> when nothing is left), and the state after the call.
\<close>

record decoder =
  pending :: "decoded list"
  halted :: "error option"

definition More :: "decoder \<Rightarrow> bool" where
  "More dec = (halted dec \<noteq> None \<or> pending dec \<noteq> [])"

definition Decode :: "decoder \<Rightarrow> (error + jsonObject) \<times> decoder" where
  "Decode dec =
     (case halted dec of
        Some e \<Rightarrow> (Inl e, dec)
      | None \<Rightarrow>
          (case pending dec of
             [] \<Rightarrow> (Inl ''EOF'', dec)
           | Decoded obj # rest \<Rightarrow> (Inr obj, dec\<lparr>pending := rest\<rparr>)
           | Rejected e # rest \<Rightarrow> (Inl e, dec\<lparr>pending := rest\<rparr>)
           | Stuck e # rest \<Rightarrow> (Inl e, dec\<lparr>halted := Some e\<rparr>)))"

record source =
  baseName :: string
  openFailure :: "error option"
  leading :: string
  readFailure :: "error option"
  openingToken :: "error + char"
  elements :: "decoded list"
  encodeResult :: "int \<Rightarrow> error option"

text \<open>The shared output: the records written to it and the warnings printed.\<close>

record sink =
  written :: "jsonObject list"
  warned :: "string list"

text \<open>\<^verbatim>\<open>unicode.IsSpace(rune(b))\<close> for a byte \<open>b\<close>.\<close>

definition isSpace :: "char \<Rightarrow> bool" where
  "isSpace b = (of_char b \<in> {9, 10, 11, 12, 13, 32, 133, 160 :: nat})"

text \<open>The loop that skips white space: the first other byte, if the bytes hold one.\<close>

fun firstNonSpace :: "string \<Rightarrow> char option" where
  "firstNonSpace [] = None"
| "firstNonSpace (b # bs) = (if isSpace b then firstNonSpace bs else Some b)"

text \<open>
  A loop that encodes a list of matches, counting; used for the matches found inside an
  object.
\<close>

fun encodeMatches ::
  "source \<Rightarrow> string \<Rightarrow> jsonObject list \<Rightarrow> int \<Rightarrow> sink \<Rightarrow> (int \<times> error option) \<times> sink" where
  "encodeMatches src msg [] n out = ((n, None), out)"
| "encodeMatches src msg (m # ms) n out =
     (case encodeResult src n of
        Some e \<Rightarrow> ((n, Some (msg @ e)), out)
      | None \<Rightarrow> encodeMatches src msg ms (n + 1) (out\<lparr>written := written out @ [m]\<rparr>))"

subsection \<open>\<^verbatim>\<open>processFileAndWriteMatches\<close> (\<^verbatim>\<open>src/pipeline/billingCode.go\<close>)\<close>

text \<open>The warning printed for an element that does not decode.\<close>

definition skipWarning :: "source \<Rightarrow> error \<Rightarrow> string" where
  "skipWarning src e =
     CHR 0x0A # ''Warning: could not decode an object in '' @ baseName src @ '': '' @ e
       @ ''. Skipping object.''"

text \<open>
  The loop \<^verbatim>\<open>for decoder.More()\<close> of the array case: on a decode error it prints a warning
  and goes to the next pass. The loop need not end; the result is \<open>None\<close> when it does not.
\<close>

partial_function (option) arrayElements ::
  "source \<Rightarrow> decoder \<Rightarrow> int \<Rightarrow> sink \<Rightarrow> ((int \<times> error option) \<times> sink) option" where
  "arrayElements src dec n out =
     (if More dec then
        (case Decode dec of
           (Inl e, dec') \<Rightarrow>
             arrayElements src dec' n (out\<lparr>warned := warned out @ [skipWarning src e]\<rparr>)
         | (Inr record, dec') \<Rightarrow>
             if isMatch record then
               (case encodeResult src n of
                  Some e \<Rightarrow>
                    Some ((n, Some (''failed to write matched record to output: '' @ e)), out)
                | None \<Rightarrow>
                    arrayElements src dec' (n + 1) (out\<lparr>written := written out @ [record]\<rparr>))
             else arrayElements src dec' n out)
      else Some ((n, None), out))"

text \<open>The whole function; \<open>None\<close> when it does not return.\<close>

definition processFileAndWriteMatches ::
  "source \<Rightarrow> sink \<Rightarrow> ((int \<times> error option) \<times> sink) option" where
  "processFileAndWriteMatches src out =
     (case openFailure src of
        Some e \<Rightarrow> Some ((0, Some e), out)
      | None \<Rightarrow>
     (case firstNonSpace (leading src) of
        None \<Rightarrow>
          (case readFailure src of
             None \<Rightarrow> Some ((0, None), out)
           | Some e \<Rightarrow> Some ((0, Some e), out))
      | Some firstChar \<Rightarrow>
          if firstChar = CHR ''['' then
            (case openingToken src of
               Inl e \<Rightarrow>
                 Some ((0, Some (''failed to read opening '' @ [CHR 0x60] @ ''['' @ [CHR 0x60]
                                  @ '': '' @ e)), out)
             | Inr t \<Rightarrow>
                 arrayElements src \<lparr>pending = elements src, halted = None\<rparr> 0 out)
          else if firstChar = CHR ''{'' then
            (case fst (Decode \<lparr>pending = elements src, halted = None\<rparr>) of
               Inl e \<Rightarrow> Some ((0, Some (''failed to decode root object: '' @ e)), out)
             | Inr data \<Rightarrow>
                 Some (encodeMatches src ''failed to write matched record from object: ''
                         (findMatchingObjectsRecursive (JObject data)) 0 out))
          else Some ((0, Some (''file does not appear to be valid JSON (starts with ''
                                 @ [firstChar] @ '')'')), out)))"

subsection \<open>\<^verbatim>\<open>StreamingGzipProcessor\<close> (\<^verbatim>\<open>src/unnamed/part_001\<close>)\<close>

text \<open>
  The loop of \<^verbatim>\<open>processArray\<close>: a decode error of either kind ends the scan with an
  error, so the loop runs over the values up to the first that does not decode.
\<close>

fun processArrayLoop ::
  "source \<Rightarrow> decoded list \<Rightarrow> int \<Rightarrow> sink \<Rightarrow> (int \<times> error option) \<times> sink" where
  "processArrayLoop src [] matchCount out = ((matchCount, None), out)"
| "processArrayLoop src (Rejected e # es) matchCount out =
     ((matchCount, Some (''failed to decode record: '' @ e)), out)"
| "processArrayLoop src (Stuck e # es) matchCount out =
     ((matchCount, Some (''failed to decode record: '' @ e)), out)"
| "processArrayLoop src (Decoded record # es) matchCount out =
     (if isMatch record then
        (case encodeResult src matchCount of
           Some e \<Rightarrow> ((matchCount, Some (''failed to write match: '' @ e)), out)
         | None \<Rightarrow>
             processArrayLoop src es (matchCount + 1) (out\<lparr>written := written out @ [record]\<rparr>))
      else processArrayLoop src es matchCount out)"

definition processArray :: "source \<Rightarrow> sink \<Rightarrow> (int \<times> error option) \<times> sink" where
  "processArray src out =
     (case openingToken src of
        Inl e \<Rightarrow> ((0, Some (''failed to read opening bracket: '' @ e)), out)
      | Inr delim \<Rightarrow>
          if delim \<noteq> CHR ''['' then ((0, Some (''expected '[' but got '' @ [delim])), out)
          else processArrayLoop src (elements src) 0 out)"

text \<open>
  The loop of \<^verbatim>\<open>processObjects\<close>: \<^verbatim>\<open>Decode\<close> returns \<^verbatim>\<open>io.EOF\<close> when the elements are
  used up, and a decode error of either kind ends the scan with an error.
\<close>

fun processObjectsLoop ::
  "source \<Rightarrow> decoded list \<Rightarrow> int \<Rightarrow> sink \<Rightarrow> (int \<times> error option) \<times> sink" where
  "processObjectsLoop src [] matchCount out = ((matchCount, None), out)"
| "processObjectsLoop src (Rejected e # es) matchCount out =
     ((matchCount, Some (''failed to decode record: '' @ e)), out)"
| "processObjectsLoop src (Stuck e # es) matchCount out =
     ((matchCount, Some (''failed to decode record: '' @ e)), out)"
| "processObjectsLoop src (Decoded record # es) matchCount out =
     (if isMatch record then
        (case encodeResult src matchCount of
           Some e \<Rightarrow> ((matchCount, Some (''failed to write match: '' @ e)), out)
         | None \<Rightarrow>
             processObjectsLoop src es (matchCount + 1)
               (out\<lparr>written := written out @ [record]\<rparr>))
      else
        (case encodeMatches src ''failed to write nested match: ''
                (findMatchingObjectsRecursive (JObject record)) matchCount out of
           ((n, Some e), out') \<Rightarrow> ((n, Some e), out')
         | ((n, None), out') \<Rightarrow> processObjectsLoop src es n out'))"

definition processObjects :: "source \<Rightarrow> sink \<Rightarrow> (int \<times> error option) \<times> sink" where
  "processObjects src out = processObjectsLoop src (elements src) 0 out"

definition ProcessMatches :: "source \<Rightarrow> sink \<Rightarrow> (int \<times> error option) \<times> sink" where
  "ProcessMatches src out =
     (case firstNonSpace (leading src) of
        None \<Rightarrow>
          ((0, Some (''failed to peek first byte: ''
                      @ (case readFailure src of None \<Rightarrow> ''EOF'' | Some e \<Rightarrow> e))), out)
      | Some firstByte \<Rightarrow>
          if firstByte = CHR ''['' then processArray src out
          else if firstByte = CHR ''{'' then processObjects src out
          else ((0, Some (''unexpected JSON structure, starts with: '' @ [firstByte])), out))"

subsection \<open>What a scan should emit\<close>

text \<open>
  Of a sequence of values: the records that decoded and match, in order; the errors of the
  values that were rejected; and whether the decoder gets stuck on none of them.
\<close>

fun matchingRecords :: "decoded list \<Rightarrow> jsonObject list" where
  "matchingRecords [] = []"
| "matchingRecords (Decoded record # es) =
     (if isMatch record then record # matchingRecords es else matchingRecords es)"
| "matchingRecords (d # es) = matchingRecords es"

fun rejected :: "decoded list \<Rightarrow> error list" where
  "rejected [] = []"
| "rejected (Rejected e # es) = e # rejected es"
| "rejected (d # es) = rejected es"

fun readable :: "decoded list \<Rightarrow> bool" where
  "readable [] = True"
| "readable (Stuck e # es) = False"
| "readable (d # es) = readable es"

text \<open>The error of a value that does not decode.\<close>

fun decodeError :: "decoded \<Rightarrow> error option" where
  "decodeError (Decoded obj) = None"
| "decodeError (Rejected e) = Some e"
| "decodeError (Stuck e) = Some e"

text \<open>What the object stream emits for one decoded object: itself, or the matches inside it.\<close>

definition emitted :: "jsonObject \<Rightarrow> jsonObject list" where
  "emitted record =
     (if isMatch record then [record] else findMatchingObjectsRecursive (JObject record))"

text \<open>
  An array file for examples: a number where an object should be, then a matching record
  (the text \<^verbatim>\<open>[1,{"billing_code":"99283"}]\<close>).
\<close>

definition mixedArray :: source where
  "mixedArray =
     \<lparr>baseName = ''a.json.gz'', openFailure = None, leading = '' ['', readFailure = None,
      openingToken = Inr (CHR ''[''),
      elements = [Rejected ''json: cannot unmarshal number into Go value of type map[string]interface {}'',
                  Decoded [(''billing_code'', JString ''99283'')]],
      encodeResult = (\<lambda>k. None)\<rparr>"

section \<open>The worker pool and the shared output (scanner, \<^verbatim>\<open>worker\<close>)\<close>

text \<open>
  Each worker runs \<^verbatim>\<open>for filePath := range jobs\<close>: it takes a path from the channel,
  calls \<^verbatim>\<open>writerMutex.Lock()\<close>, scans the file (writing the matches to the shared writer,
  and in the streaming scanner flushing it), calls \<^verbatim>\<open>writerMutex.Unlock()\<close> and sends its
  result. The workers run concurrently; the model interleaves their steps in any order. A
  worker is idle, or has taken a file and waits for the lock, or holds the lock with the
  records it still has to write, or has released the lock and is about to send its result.
\<close>

datatype 'r worker =
    Idle
  | Claimed string
  | Writing string "'r list"
  | Reporting string

text \<open>
  The state of the pool: the paths still in the \<^verbatim>\<open>jobs\<close> channel, the owner of the mutex,
  the state of each worker, the records written to the shared output, each with the file it
  comes from, and the files whose results have been sent.
\<close>

record 'r pool =
  jobs :: "string list"
  mutex :: "nat option"
  workers :: "nat \<Rightarrow> 'r worker"
  shared :: "(string \<times> 'r) list"
  sent :: "string list"

text \<open>
  One step of one of the \<open>numWorkers\<close> workers. \<open>emits f\<close> is the list of records that the
  scan of file \<open>f\<close> writes. \<^verbatim>\<open>Lock\<close> can only be passed while nobody owns the mutex.
\<close>

inductive step :: "nat \<Rightarrow> (string \<Rightarrow> 'r list) \<Rightarrow> 'r pool \<Rightarrow> 'r pool \<Rightarrow> bool"
  for numWorkers :: nat and emits :: "string \<Rightarrow> 'r list" where
  do_receive:
    "i < numWorkers \<Longrightarrow> workers s i = Idle \<Longrightarrow> jobs s = f # fs \<Longrightarrow>
     step numWorkers emits s (s\<lparr>jobs := fs, workers := (workers s)(i := Claimed f)\<rparr>)"
| do_lock:
    "i < numWorkers \<Longrightarrow> workers s i = Claimed f \<Longrightarrow> mutex s = None \<Longrightarrow>
     step numWorkers emits s
       (s\<lparr>mutex := Some i, workers := (workers s)(i := Writing f (emits f))\<rparr>)"
| do_write:
    "i < numWorkers \<Longrightarrow> workers s i = Writing f (r # rs) \<Longrightarrow>
     step numWorkers emits s
       (s\<lparr>shared := shared s @ [(f, r)], workers := (workers s)(i := Writing f rs)\<rparr>)"
| do_unlock:
    "i < numWorkers \<Longrightarrow> workers s i = Writing f [] \<Longrightarrow>
     step numWorkers emits s (s\<lparr>mutex := None, workers := (workers s)(i := Reporting f)\<rparr>)"
| do_send:
    "i < numWorkers \<Longrightarrow> workers s i = Reporting f \<Longrightarrow>
     step numWorkers emits s (s\<lparr>sent := sent s @ [f], workers := (workers s)(i := Idle)\<rparr>)"

text \<open>The pool when \<^verbatim>\<open>main\<close> has started the workers and queued the files.\<close>

definition startPool :: "string list \<Rightarrow> 'r pool" where
  "startPool filesToProcess =
     \<lparr>jobs = filesToProcess, mutex = None, workers = (\<lambda>i. Idle), shared = [], sent = []\<rparr>"

text \<open>
  The records of each file form one block: once the neighbouring repetitions of a file are
  merged, no file occurs twice in the sequence of the files of the written records.
\<close>

definition contiguous :: "string list \<Rightarrow> bool" where
  "contiguous fs = distinct (remdups_adj fs)"

text \<open>The file a worker has taken and not yet finished writing.\<close>

fun owned :: "'r worker \<Rightarrow> string option" where
  "owned Idle = None"
| "owned (Claimed f) = Some f"
| "owned (Writing f rs) = Some f"
| "owned (Reporting f) = None"

text \<open>
  What holds in every state of the pool: the queued files are distinct; a file a worker has
  taken is not queued any more, and no two workers have the same file; a worker that
  writes owns the mutex; nothing of a file that is queued or waits for the lock has been
  written; the file being written is, if anything of it has been written, the file of the
  last record; and the output is contiguous. \<open>writtenFiles\<close> is the sequence of the files
  of the records in the output.
\<close>

definition writtenFiles :: "'r pool \<Rightarrow> string list" where
  "writtenFiles s = map fst (shared s)"

definition poolInv :: "'r pool \<Rightarrow> bool" where
  "poolInv s =
     (distinct (jobs s)
      \<and> (\<forall>i f. owned (workers s i) = Some f \<longrightarrow> f \<notin> set (jobs s))
      \<and> (\<forall>i j f. owned (workers s i) = Some f \<and> owned (workers s j) = Some f \<longrightarrow> i = j)
      \<and> (\<forall>i f rs. workers s i = Writing f rs \<longrightarrow> mutex s = Some i)
      \<and> (\<forall>f \<in> set (jobs s). f \<notin> set (writtenFiles s))
      \<and> (\<forall>i f. workers s i = Claimed f \<longrightarrow> f \<notin> set (writtenFiles s))
      \<and> (\<forall>i f rs. workers s i = Writing f rs \<longrightarrow>
            f \<in> set (writtenFiles s) \<longrightarrow> last (writtenFiles s) = f)
      \<and> contiguous (writtenFiles s))"

text \<open>
  A state of a pool of two workers for examples: worker 0 has taken the first of two files,
  owns the mutex and has written the first of its two records.
\<close>

definition examplePool :: "nat pool" where
  "examplePool =
     \<lparr>jobs = [''b.json.gz''], mutex = Some 0,
      workers = (\<lambda>i. Idle)(0 := Writing ''a.json.gz'' [2]),
      shared = [(''a.json.gz'', 1)], sent = []\<rparr>"

section \<open>Properties of the retry classification\<close>

lemma statusLoop_mem: "statusLoop c cs = (c \<in> set cs)"
  by (induction cs) auto

text \<open>
  Claim C9. For every integer status code, \<^verbatim>\<open>isRetryableHTTPStatus\<close> answers true if and
  only if the code is one of 429, 500, 502, 503, 504.
\<close>

theorem isRetryableHTTPStatus_exact:
  "isRetryableHTTPStatus statusCode = (statusCode \<in> {429, 500, 502, 503, 504})"
  by (simp add: isRetryableHTTPStatus_def statusLoop_mem retryableStatusCodes_def)

lemma Contains_sublist: "Contains s substr = sublist substr s"
proof (induction s)
  case Nil
  show ?case by simp
next
  case (Cons c cs)
  show ?case
  proof (cases substr)
    case Nil
    then show ?thesis by simp
  next
    case (Cons d ds)
    with Cons.IH show ?thesis by (simp add: sublist_Cons_right)
  qed
qed

lemma retryableLoop_ex:
  "retryableLoop errStr rs = (\<exists>r \<in> set rs. Contains (ToLower errStr) r)"
  by (induction rs) auto

text \<open>
  Claim C3, as the code has it. \<^verbatim>\<open>isRetryableError\<close> answers true exactly when the error
  is not nil and its lower-cased message contains one of the six phrases somewhere: the test
  is a substring test on the message text, and every other error (nil included) is
  permanent.
\<close>

theorem isRetryableError_substring:
  "isRetryableError e =
     (\<exists>errStr. e = Some errStr \<and>
        (\<exists>phrase \<in> set retryableErrors. sublist phrase (ToLower errStr)))"
  by (cases e) (simp_all add: isRetryableError_def retryableLoop_ex Contains_sublist)

text \<open>
  The theorem at three errors: a timeout written with a capital, the nil error, and a
  message with none of the phrases.
\<close>

theorem isRetryableError_substring_witness:
  "isRetryableError (Some ''dial tcp 10.0.0.1:443: i/o Timeout'') \<and> \<not> isRetryableError None
   \<and> \<not> isRetryableError (Some ''HTTP 404'')"
proof -
  have low: "ToLower ''dial tcp 10.0.0.1:443: i/o Timeout'' = ''dial tcp 10.0.0.1:443: i/o timeout''"
    by code_simp
  have sub: "sublist ''timeout'' ''dial tcp 10.0.0.1:443: i/o timeout''"
    by (simp add: sublist_code)
  have low': "ToLower ''HTTP 404'' = ''http 404''"
    by code_simp
  have none: "\<not> (\<exists>phrase \<in> set retryableErrors. sublist phrase ''http 404'')"
    by (simp add: retryableErrors_def sublist_code)
  show ?thesis
    using isRetryableError_substring [of "Some ''dial tcp 10.0.0.1:443: i/o Timeout''"]
      isRetryableError_substring [of None]
      isRetryableError_substring [of "Some ''HTTP 404''"] low sub low' none
    by (auto simp: retryableErrors_def)
qed

text \<open>
  Claim C3 as stated fails: the verdict follows the text, not the kind of failure. The same
  certificate failure is retried when the requested URL happens to contain the word
  \<^verbatim>\<open>timeout\<close>, and not retried otherwise.
\<close>

theorem isRetryableError_counterexample:
  "isRetryableError
     (Some ''Get https://example.com/timeout.json: x509: certificate signed by unknown authority'')
   \<and> \<not> isRetryableError
     (Some ''Get https://example.com/data.json: x509: certificate signed by unknown authority'')"
  by (simp add: isRetryableError_def retryableErrors_def ToLower_def toLowerByte_def)

section \<open>Properties of the URL list loading\<close>

lemma scanLoop_filter:
  "scanLoop ls urls = urls @ map fixUnicodeEscapes (filter keptLine ls)"
  by (induction ls arbitrary: urls) (auto simp: keptLine_def Let_def)

text \<open>
  Claim C10, as the code has it. When the file opens and the scanner ends without an error,
  \<^verbatim>\<open>loadURLsFromFile\<close> returns, in input order, the escape-replaced form of exactly the
  lines that are not empty, do not start with \<^verbatim>\<open>#\<close> and, once the four escapes are
  replaced, begin with \<^verbatim>\<open>http://\<close> or \<^verbatim>\<open>https://\<close>; every other line is dropped without
  an error. When the file does not open or the scanner ends with an error, that error is
  returned and no URL.
\<close>

theorem loadURLsFromFile_cleaned:
  "loadURLsFromFile (Inr \<lparr>scanned = ls, scanErr = None\<rparr>)
     = Inr (map fixUnicodeEscapes (filter keptLine ls))
   \<and> loadURLsFromFile (Inr \<lparr>scanned = ls, scanErr = Some e\<rparr>) = Inl e
   \<and> loadURLsFromFile (Inl e) = Inl e"
  by (simp add: loadURLsFromFile_def scanLoop_filter)

text \<open>
  Claim C10 as stated fails: a kept line that holds an escape is not returned as it stands in
  the file, its replaced form is.
\<close>

theorem loadURLsFromFile_counterexample:
  "loadURLsFromFile
      (Inr \<lparr>scanned = [''# list'', ''https://h/f?a'' @ CHR 0x5C # ''u003d1''], scanErr = None\<rparr>)
     = Inr [''https://h/f?a=1'']
   \<and> filter keptLine [''# list'', ''https://h/f?a'' @ CHR 0x5C # ''u003d1'']
     = [''https://h/f?a'' @ CHR 0x5C # ''u003d1'']
   \<and> ''https://h/f?a=1'' \<noteq> ''https://h/f?a'' @ CHR 0x5C # ''u003d1''"
  by (simp add: loadURLsFromFile_def keptLine_def fixUnicodeEscapes_def isURL_def)

section \<open>Properties of the backoff delay\<close>




section \<open>Properties of the download\<close>

lemma Split_not_Nil: "Split s sep \<noteq> []"
  by (induction s) (auto split: list.splits)

lemma fileMapLoop_apply:
  "fileMapLoop files fileMap k = (if (k, False) \<in> set files then Some True else fileMap k)"
proof (induction files arbitrary: fileMap)
  case Nil
  show ?case by simp
next
  case (Cons entry files)
  show ?case using Cons.IH by (cases entry) auto
qed

lemma buildExistingFileMap_present:
  "present (buildExistingFileMap (Inr files)) k = ((k, False) \<in> set files)"
  by (simp add: buildExistingFileMap_def present_def fileMapLoop_apply)

lemma downloadFile_existing:
  assumes "parseURL w urlString = Inr path"
    and "present existingFileMap (fileNameOf path)"
  shows "downloadFile w urlString downloadDir existingFileMap =
     (\<lparr>URL = urlString, Success = True, Error = None,
       FilePath = joinPath w downloadDir (fileNameOf path), Retries = 0\<rparr>, [])"
  using assms by (simp add: downloadFile_def Let_def)

lemma downloadTasks_existing:
  assumes "\<forall>i < length urls. \<exists>path. parseURL (ws (index + i)) (urls ! i) = Inr path
             \<and> present existingFileMap (fileNameOf path)"
  shows "\<forall>task \<in> set (downloadTasks ws index urls downloadDir existingFileMap).
           Success (fst task) \<and> Error (fst task) = None \<and> Retries (fst task) = 0
           \<and> snd task = [Sleep 100000000]"
  using assms
proof (induction urls arbitrary: index)
  case Nil
  show ?case by simp
next
  case (Cons u us)
  from Cons.prems have "\<exists>path. parseURL (ws (index + 0)) ((u # us) ! 0) = Inr path
             \<and> present existingFileMap (fileNameOf path)"
    by blast
  then obtain path where p: "parseURL (ws index) u = Inr path"
    and e: "present existingFileMap (fileNameOf path)" by auto
  have rest: "\<forall>i < length us. \<exists>path. parseURL (ws (Suc index + i)) (us ! i) = Inr path
             \<and> present existingFileMap (fileNameOf path)"
  proof (intro allI impI)
    fix i assume "i < length us"
    then have "Suc i < length (u # us)" by simp
    with Cons.prems have "\<exists>path. parseURL (ws (index + Suc i)) ((u # us) ! Suc i) = Inr path
             \<and> present existingFileMap (fileNameOf path)" by blast
    then show "\<exists>path. parseURL (ws (Suc index + i)) (us ! i) = Inr path
             \<and> present existingFileMap (fileNameOf path)" by simp
  qed
  from Cons.IH [OF rest] show ?case
    by (simp add: downloadFile_existing [OF p e])
qed

lemma length_downloadTasks:
  "length (downloadTasks ws index urls downloadDir existingFileMap) = length urls"
  by (induction urls arbitrary: index) (auto split: prod.splits)

text \<open>
  Claim C5. When the URL parses and the file name taken from its path is present in the map
  of existing files, \<^verbatim>\<open>downloadFile\<close> returns a successful result, with the destination
  path and zero retries, and has no effect at all: no request, no file operation. Hence,
  when every URL parses and the directory listing (from which \<^verbatim>\<open>buildExistingFileMap\<close>
  builds the map) holds the file of every URL, \<^verbatim>\<open>downloadFiles\<close> yields one result per
  URL, all successful, and no task sends a request or touches a file.
\<close>

theorem existing_files_are_not_fetched:
  "(parseURL w urlString = Inr path \<and> present existingFileMap (fileNameOf path) \<longrightarrow>
      downloadFile w urlString downloadDir existingFileMap =
        (\<lparr>URL = urlString, Success = True, Error = None,
          FilePath = joinPath w downloadDir (fileNameOf path), Retries = 0\<rparr>, []))
   \<and> ((\<forall>i < length urls. \<exists>path. parseURL (ws i) (urls ! i) = Inr path
           \<and> (fileNameOf path, False) \<in> set entries) \<longrightarrow>
        length (downloadFiles ws urls downloadDir (buildExistingFileMap (Inr entries)))
          = length urls
        \<and> (\<forall>task \<in> set (downloadFiles ws urls downloadDir (buildExistingFileMap (Inr entries))).
              Success (fst task) \<and> Error (fst task) = None \<and> Retries (fst task) = 0
              \<and> filter touchesOutside (snd task) = []))"
proof (intro conjI impI)
  assume "parseURL w urlString = Inr path \<and> present existingFileMap (fileNameOf path)"
  then show "downloadFile w urlString downloadDir existingFileMap =
        (\<lparr>URL = urlString, Success = True, Error = None,
          FilePath = joinPath w downloadDir (fileNameOf path), Retries = 0\<rparr>, [])"
    by (simp add: downloadFile_existing)
next
  show "length (downloadFiles ws urls downloadDir (buildExistingFileMap (Inr entries)))
          = length urls"
    by (simp add: downloadFiles_def length_downloadTasks)
next
  assume h: "\<forall>i < length urls. \<exists>path. parseURL (ws i) (urls ! i) = Inr path
           \<and> (fileNameOf path, False) \<in> set entries"
  then have "\<forall>i < length urls. \<exists>path. parseURL (ws (0 + i)) (urls ! i) = Inr path
             \<and> present (buildExistingFileMap (Inr entries)) (fileNameOf path)"
    by (simp add: buildExistingFileMap_present)
  from downloadTasks_existing [OF this]
  show "\<forall>task \<in> set (downloadFiles ws urls downloadDir (buildExistingFileMap (Inr entries))).
              Success (fst task) \<and> Error (fst task) = None \<and> Retries (fst task) = 0
              \<and> filter touchesOutside (snd task) = []"
    by (simp add: downloadFiles_def)
qed

text \<open>The theorem at one URL, and at two URLs whose files are in the listing.\<close>

theorem existing_files_are_not_fetched_witness:
  "downloadFile exampleWorld ''https://example.com/mrf/a.json.gz'' ''downloads''
       [''a.json.gz'' \<mapsto> True]
     = (\<lparr>URL = ''https://example.com/mrf/a.json.gz'', Success = True, Error = None,
         FilePath = ''downloads/a.json.gz'', Retries = 0\<rparr>, [])
   \<and> map fst (downloadFiles (\<lambda>i. exampleWorld)
         [''https://example.com/mrf/a.json.gz'', ''https://example.com/b.json.gz''] ''downloads''
         (buildExistingFileMap (Inr [(''a.json.gz'', False), (''old'', True), (''b.json.gz'', False)])))
     = [\<lparr>URL = ''https://example.com/mrf/a.json.gz'', Success = True, Error = None,
         FilePath = ''downloads/a.json.gz'', Retries = 0\<rparr>,
        \<lparr>URL = ''https://example.com/b.json.gz'', Success = True, Error = None,
         FilePath = ''downloads/b.json.gz'', Retries = 0\<rparr>]"
proof -
  have p1: "parseURL exampleWorld ''https://example.com/mrf/a.json.gz'' = Inr ''/mrf/a.json.gz''"
    by (simp add: exampleWorld_def)
  have f1: "fileNameOf ''/mrf/a.json.gz'' = ''a.json.gz''"
    by (simp add: fileNameOf_def)
  have e1: "present [''a.json.gz'' \<mapsto> True] ''a.json.gz''"
    by (simp add: present_def)
  have one: "downloadFile exampleWorld ''https://example.com/mrf/a.json.gz'' ''downloads''
       [''a.json.gz'' \<mapsto> True]
     = (\<lparr>URL = ''https://example.com/mrf/a.json.gz'', Success = True, Error = None,
         FilePath = ''downloads/a.json.gz'', Retries = 0\<rparr>, [])"
    using existing_files_are_not_fetched
      [of exampleWorld "''https://example.com/mrf/a.json.gz''" "''/mrf/a.json.gz''"
          "[''a.json.gz'' \<mapsto> True]" "''downloads''" "[]" "\<lambda>i. exampleWorld" "[]"]
      p1 e1 by (simp add: f1) (simp add: exampleWorld_def)
  have two: "map fst (downloadFiles (\<lambda>i. exampleWorld)
         [''https://example.com/mrf/a.json.gz'', ''https://example.com/b.json.gz''] ''downloads''
         (buildExistingFileMap (Inr [(''a.json.gz'', False), (''old'', True), (''b.json.gz'', False)])))
     = [\<lparr>URL = ''https://example.com/mrf/a.json.gz'', Success = True, Error = None,
         FilePath = ''downloads/a.json.gz'', Retries = 0\<rparr>,
        \<lparr>URL = ''https://example.com/b.json.gz'', Success = True, Error = None,
         FilePath = ''downloads/b.json.gz'', Retries = 0\<rparr>]"
    by (simp add: downloadFiles_def downloadFile_def buildExistingFileMap_def exampleWorld_def
        fileNameOf_def present_def)
  from one two show ?thesis by simp
qed

lemma attemptLoop_Return:
  assumes "attempt \<le> MaxRetries config"
    and "attemptBody w config u p attempt result = Return r es"
  shows "attemptLoop w config u p attempt result = (r, es)"
  using assms by (subst attemptLoop.simps) simp

lemma attemptLoop_Continue:
  assumes "attempt \<le> MaxRetries config"
    and "attemptBody w config u p attempt result = Continue r es"
  shows "attemptLoop w config u p attempt result =
     (case attemptLoop w config u p (attempt + 1) r of (final, later) \<Rightarrow> (final, es @ later))"
  using assms by (subst attemptLoop.simps) simp

lemma attemptBody_retryable:
  assumes "retryable (outcome w attempt)" and "attempt < MaxRetries config"
  shows "\<exists>r es. attemptBody w config u p attempt result = Continue r es
           \<and> URL r = URL result \<and> Success r = Success result \<and> FilePath r = FilePath result
           \<and> length (filter isGet es) = 1 \<and> filter onFile es = []"
proof (cases "getResult (outcome w attempt)")
  case (Inl e)
  with assms show ?thesis
    by (simp add: attemptBody_def retryable_def Let_def)
next
  case (Inr statusCode)
  with assms show ?thesis
    by (simp add: attemptBody_def retryable_def Let_def)
qed

lemma attemptLoop_retries:
  assumes "\<forall>a. a0 \<le> a \<and> a < a0 + int n \<longrightarrow> retryable (outcome w a)"
    and "a0 + int n \<le> MaxRetries config"
  shows "\<exists>r es. attemptLoop w config u p a0 result =
            (case attemptLoop w config u p (a0 + int n) r of
               (final, later) \<Rightarrow> (final, es @ later))
           \<and> URL r = URL result \<and> Success r = Success result \<and> FilePath r = FilePath result
           \<and> length (filter isGet es) = n \<and> filter onFile es = []"
  using assms
proof (induction n arbitrary: a0 result)
  case 0
  have "attemptLoop w config u p a0 result =
      (case attemptLoop w config u p (a0 + int 0) result of
         (final, later) \<Rightarrow> (final, [] @ later))"
    by (simp split: prod.splits)
  then show ?case by (intro exI [of _ result] exI [of _ "[]"]) simp
next
  case (Suc n)
  from Suc.prems have first: "retryable (outcome w a0)" and lt: "a0 < MaxRetries config"
    by auto
  from attemptBody_retryable [OF first lt, of u p result]
  obtain r1 es1 where body: "attemptBody w config u p a0 result = Continue r1 es1"
    and keep1: "URL r1 = URL result" "Success r1 = Success result"
      "FilePath r1 = FilePath result"
    and es1: "length (filter isGet es1) = 1" "filter onFile es1 = []"
    by blast
  have rest: "\<forall>a. a0 + 1 \<le> a \<and> a < a0 + 1 + int n \<longrightarrow> retryable (outcome w a)"
    using Suc.prems(1) by auto
  have bound: "a0 + 1 + int n \<le> MaxRetries config"
    using Suc.prems(2) by simp
  from Suc.IH [OF rest bound, of r1]
  obtain r es where loop: "attemptLoop w config u p (a0 + 1) r1 =
            (case attemptLoop w config u p (a0 + 1 + int n) r of
               (final, later) \<Rightarrow> (final, es @ later))"
    and keep: "URL r = URL r1" "Success r = Success r1" "FilePath r = FilePath r1"
    and es: "length (filter isGet es) = n" "filter onFile es = []"
    by blast
  have idx: "a0 + 1 + int n = a0 + int (Suc n)" by simp
  have "attemptLoop w config u p a0 result =
      (case attemptLoop w config u p (a0 + int (Suc n)) r of
         (final, later) \<Rightarrow> (final, (es1 @ es) @ later))"
    using lt body loop unfolding idx
    by (simp add: attemptLoop_Continue split: prod.splits)
  moreover have "length (filter isGet (es1 @ es)) = Suc n" "filter onFile (es1 @ es) = []"
    using es1 es by simp_all
  ultimately show ?case
    using keep keep1 by (intro exI [of _ r] exI [of _ "es1 @ es"]) simp
qed

lemma DownloadResult_fields:
  "r\<lparr>Error := x, Retries := k\<rparr>
     = \<lparr>URL = URL r, Success = Success r, Error = x, FilePath = FilePath r, Retries = k\<rparr>"
  by (cases r) simp

text \<open>
  Claim C6. Take a download that reaches pass \<open>k\<close> of the retry loop (so the \<open>k\<close> passes
  before it failed in a retryable way) and gets status 200 there. If creating the file
  fails, or creating succeeds and copying the body fails, \<^verbatim>\<open>downloadFile\<close> returns a
  failed result with that error and \<open>Retries = k\<close>, and the run ends in this pass: after
  the \<open>k\<close> earlier requests there is this one and none after it. No earlier effect touches
  a file. After a failed copy the last effect is the removal of the destination file.
\<close>

theorem local_io_failure_is_permanent:
  assumes parse: "parseURL w urlString = Inr path"
    and absent: "\<not> present existingFileMap (fileNameOf path)"
    and k: "int k \<le> MaxRetries (defaultRetryConfig (arith w))"
    and earlier: "\<forall>a. 0 \<le> a \<and> a < int k \<longrightarrow> retryable (outcome w a)"
    and ok: "getResult (outcome w (int k)) = Inr 200"
    and p: "p = joinPath w downloadDir (fileNameOf path)"
  shows "(createResult (outcome w (int k)) = Some e \<longrightarrow>
           (\<exists>before. downloadFile w urlString downloadDir existingFileMap =
              (\<lparr>URL = urlString, Success = False,
                Error = Some (''failed to create file: '' @ e), FilePath = [],
                Retries = int k\<rparr>,
               before @ [HttpGet urlString, CreateFile p, CloseBody])
            \<and> length (filter isGet before) = k \<and> filter onFile before = []))
       \<and> (createResult (outcome w (int k)) = None \<and> copyResult (outcome w (int k)) = Some e \<longrightarrow>
           (\<exists>before. downloadFile w urlString downloadDir existingFileMap =
              (\<lparr>URL = urlString, Success = False,
                Error = Some (''failed to write file: '' @ e), FilePath = [],
                Retries = int k\<rparr>,
               before @ [HttpGet urlString, CreateFile p, CopyBody p, CloseBody, CloseFile,
                         RemoveFile p])
            \<and> length (filter isGet before) = k \<and> filter onFile before = []))"
proof -
  let ?start = "\<lparr>URL = urlString, Success = False, Error = None, FilePath = [], Retries = 0\<rparr>"
  let ?cfg = "defaultRetryConfig (arith w)"
  have dl: "downloadFile w urlString downloadDir existingFileMap
      = attemptLoop w ?cfg urlString p 0 ?start"
    using parse absent p by (simp add: downloadFile_def Let_def)
  have e0: "\<forall>a. 0 \<le> a \<and> a < 0 + int k \<longrightarrow> retryable (outcome w a)"
    using earlier by simp
  have b0: "0 + int k \<le> MaxRetries ?cfg" using k by simp
  from attemptLoop_retries [OF e0 b0, of urlString p ?start]
  obtain r es where loop: "attemptLoop w ?cfg urlString p 0 ?start =
            (case attemptLoop w ?cfg urlString p (int k) r of
               (final, later) \<Rightarrow> (final, es @ later))"
    and keep: "URL r = urlString" "Success r = False" "FilePath r = []"
    and es: "length (filter isGet es) = k" "filter onFile es = []"
    by auto
  define slept where "slept = (if int k > 0
      then [Sleep (calculateBackoffDelay (arith w) (int k - 1) ?cfg (sample w (int k)))]
      else [])"
  have slept: "filter isGet slept = []" "filter onFile slept = []"
    by (simp_all add: slept_def)
  show ?thesis
  proof (intro conjI impI)
    assume c: "createResult (outcome w (int k)) = Some e"
    have "attemptBody w ?cfg urlString p (int k) r =
        Return (r\<lparr>Error := Some (''failed to create file: '' @ e), Retries := int k\<rparr>)
          (slept @ [HttpGet urlString, CreateFile p, CloseBody])"
      using ok c by (simp add: attemptBody_def slept_def)
    from attemptLoop_Return [OF k this] loop dl
    have "downloadFile w urlString downloadDir existingFileMap =
        (\<lparr>URL = urlString, Success = False,
          Error = Some (''failed to create file: '' @ e), FilePath = [], Retries = int k\<rparr>,
         (es @ slept) @ [HttpGet urlString, CreateFile p, CloseBody])"
      by (simp add: DownloadResult_fields keep)
    moreover have "length (filter isGet (es @ slept)) = k" "filter onFile (es @ slept) = []"
      using es slept by simp_all
    ultimately show "\<exists>before. downloadFile w urlString downloadDir existingFileMap =
              (\<lparr>URL = urlString, Success = False,
                Error = Some (''failed to create file: '' @ e), FilePath = [],
                Retries = int k\<rparr>,
               before @ [HttpGet urlString, CreateFile p, CloseBody])
            \<and> length (filter isGet before) = k \<and> filter onFile before = []"
      by blast
  next
    assume c: "createResult (outcome w (int k)) = None \<and> copyResult (outcome w (int k)) = Some e"
    have "attemptBody w ?cfg urlString p (int k) r =
        Return (r\<lparr>Error := Some (''failed to write file: '' @ e), Retries := int k\<rparr>)
          (slept @ [HttpGet urlString, CreateFile p, CopyBody p, CloseBody, CloseFile,
                    RemoveFile p])"
      using ok c by (simp add: attemptBody_def slept_def)
    from attemptLoop_Return [OF k this] loop dl
    have "downloadFile w urlString downloadDir existingFileMap =
        (\<lparr>URL = urlString, Success = False,
          Error = Some (''failed to write file: '' @ e), FilePath = [], Retries = int k\<rparr>,
         (es @ slept) @ [HttpGet urlString, CreateFile p, CopyBody p, CloseBody, CloseFile,
                         RemoveFile p])"
      by (simp add: DownloadResult_fields keep)
    moreover have "length (filter isGet (es @ slept)) = k" "filter onFile (es @ slept) = []"
      using es slept by simp_all
    ultimately show "\<exists>before. downloadFile w urlString downloadDir existingFileMap =
              (\<lparr>URL = urlString, Success = False,
                Error = Some (''failed to write file: '' @ e), FilePath = [],
                Retries = int k\<rparr>,
               before @ [HttpGet urlString, CreateFile p, CopyBody p, CloseBody, CloseFile,
                         RemoveFile p])
            \<and> length (filter isGet before) = k \<and> filter onFile before = []"
      by blast
  qed
qed

text \<open>The theorem in the world where the second pass cannot write the file.\<close>

theorem local_io_failure_is_permanent_witness:
  "\<exists>before. downloadFile flakyWorld ''https://example.com/mrf/a.json.gz'' ''downloads'' Map.empty =
      (\<lparr>URL = ''https://example.com/mrf/a.json.gz'', Success = False,
        Error = Some ''failed to write file: no space left on device'', FilePath = [],
        Retries = 1\<rparr>,
       before @ [HttpGet ''https://example.com/mrf/a.json.gz'',
                 CreateFile ''downloads/a.json.gz'', CopyBody ''downloads/a.json.gz'',
                 CloseBody, CloseFile, RemoveFile ''downloads/a.json.gz''])
    \<and> length (filter isGet before) = 1 \<and> filter onFile before = []"
proof -
  have parse: "parseURL flakyWorld ''https://example.com/mrf/a.json.gz'' = Inr ''/mrf/a.json.gz''"
    by (simp add: flakyWorld_def)
  have name: "fileNameOf ''/mrf/a.json.gz'' = ''a.json.gz''"
    by (simp add: fileNameOf_def)
  have absent: "\<not> present Map.empty (fileNameOf ''/mrf/a.json.gz'')"
    by (simp add: present_def)
  have k: "int 1 \<le> MaxRetries (defaultRetryConfig (arith flakyWorld))"
    by (simp add: defaultRetryConfig_def)
  have earlier: "\<forall>a. 0 \<le> a \<and> a < int 1 \<longrightarrow> retryable (outcome flakyWorld a)"
    by (simp add: flakyWorld_def retryable_def isRetryableHTTPStatus_def
        retryableStatusCodes_def)
  have ok: "getResult (outcome flakyWorld (int 1)) = Inr 200"
    by (simp add: flakyWorld_def)
  have p: "''downloads/a.json.gz'' = joinPath flakyWorld ''downloads'' (fileNameOf ''/mrf/a.json.gz'')"
    by (simp add: flakyWorld_def name)
  have fails: "createResult (outcome flakyWorld (int 1)) = None
      \<and> copyResult (outcome flakyWorld (int 1)) = Some ''no space left on device''"
    by (simp add: flakyWorld_def)
  from local_io_failure_is_permanent [OF parse absent k earlier ok p,
      of "''no space left on device''"] fails
  show ?thesis by simp
qed

section \<open>Properties of the salvaging decompression\<close>

lemma writeChunk_ok:
  assumes "\<forall>k. writeResult g k = None"
  shows "\<exists>st'. writeChunk g chunk st = Inr st'
           \<and> outputBytes st' = outputBytes st @ chunk
           \<and> totalBytes st' = totalBytes st + int (length chunk)"
  using assms by (simp add: writeChunk_def)

lemma readLoop_ok:
  assumes "\<forall>k. writeResult g k = None"
  shows "\<exists>st'. readLoop g chunks st =
            ((case snd (lastRead g) of
                EOF \<Rightarrow> None
              | ReadError e \<Rightarrow>
                  if totalBytes st' > 0 then None else Some (''error reading gzip: '' @ e)),
             st')
           \<and> outputBytes st' = outputBytes st @ concat chunks @ fst (lastRead g)
           \<and> totalBytes st'
               = totalBytes st + int (length (concat chunks @ fst (lastRead g)))"
proof (induction chunks arbitrary: st)
  case Nil
  from writeChunk_ok [OF assms, of "fst (lastRead g)" st]
  obtain st' where w: "writeChunk g (fst (lastRead g)) st = Inr st'"
    and o: "outputBytes st' = outputBytes st @ fst (lastRead g)"
    and t: "totalBytes st' = totalBytes st + int (length (fst (lastRead g)))"
    by blast
  show ?case
    by (rule exI [of _ st']) (simp add: w o t split: readEnd.splits)
next
  case (Cons chunk chunks)
  from writeChunk_ok [OF assms, of chunk st]
  obtain st1 where w: "writeChunk g chunk st = Inr st1"
    and o: "outputBytes st1 = outputBytes st @ chunk"
    and t: "totalBytes st1 = totalBytes st + int (length chunk)"
    by blast
  from Cons.IH [of st1] obtain st' where
    r: "readLoop g chunks st1 =
            ((case snd (lastRead g) of
                EOF \<Rightarrow> None
              | ReadError e \<Rightarrow>
                  if totalBytes st' > 0 then None else Some (''error reading gzip: '' @ e)),
             st')"
    and o': "outputBytes st' = outputBytes st1 @ concat chunks @ fst (lastRead g)"
    and t': "totalBytes st'
               = totalBytes st1 + int (length (concat chunks @ fst (lastRead g)))"
    by blast
  show ?case
    by (rule exI [of _ st']) (simp add: w r o o' t t')
qed

text \<open>
  Claim C7. Let the input open, the output file be created, every write succeed, and the
  reader end with an error other than end of file. If at least one byte was decompressed
  (and so written) by then, \<^verbatim>\<open>robustDecompress\<close> returns nil and the output file holds
  all the bytes decompressed; if none was, it returns an error (and leaves an empty file).
\<close>

theorem robustDecompress_salvage:
  assumes "openResult g = None" and "newReaderResult g = None"
    and "mkdirResult g = None" and "createOutput g = None"
    and "\<forall>k. writeResult g k = None"
    and "lastRead g = (chunk, ReadError e)"
  shows "(concat (reads g) @ chunk \<noteq> [] \<longrightarrow>
            robustDecompress g = (None, Some (concat (reads g) @ chunk)))
       \<and> (concat (reads g) @ chunk = [] \<longrightarrow>
            robustDecompress g = (Some (''error reading gzip: '' @ e), Some []))"
proof -
  let ?st = "\<lparr>outputBytes = [], totalBytes = 0, chunkCount = 0\<rparr>"
  from readLoop_ok [OF assms(5), of "reads g" ?st] assms(6)
  obtain st' where
    r: "readLoop g (reads g) ?st =
          ((if totalBytes st' > 0 then None else Some (''error reading gzip: '' @ e)), st')"
    and o: "outputBytes st' = concat (reads g) @ chunk"
    and t: "totalBytes st' = int (length (concat (reads g) @ chunk))"
    by auto
  have rd: "robustDecompress g
      = ((if totalBytes st' > 0 then None else Some (''error reading gzip: '' @ e)),
         Some (outputBytes st'))"
    using assms(1-4) by (simp add: robustDecompress_def r)
  define salvaged where "salvaged = concat (reads g) @ chunk"
  have pos: "(0 < int (length salvaged)) = (salvaged \<noteq> [])"
    by simp
  show ?thesis
    unfolding rd o t salvaged_def [symmetric] pos by simp
qed

text \<open>The theorem at a stream that breaks after six bytes, and at one that breaks at once.\<close>

theorem robustDecompress_salvage_witness:
  "robustDecompress
     \<lparr>openResult = None, newReaderResult = None, mkdirResult = None, createOutput = None,
      reads = [''{\"a\":'', ''''], lastRead = (''1'', ReadError ''unexpected EOF''),
      writeResult = (\<lambda>k. None)\<rparr>
     = (None, Some ''{\"a\":1'')
   \<and> robustDecompress
     \<lparr>openResult = None, newReaderResult = None, mkdirResult = None, createOutput = None,
      reads = [], lastRead = ('''', ReadError ''gzip: invalid checksum''),
      writeResult = (\<lambda>k. None)\<rparr>
     = (Some ''error reading gzip: gzip: invalid checksum'', Some [])"
  using robustDecompress_salvage
      [of "\<lparr>openResult = None, newReaderResult = None, mkdirResult = None, createOutput = None,
      reads = [''{\"a\":'', ''''], lastRead = (''1'', ReadError ''unexpected EOF''),
      writeResult = (\<lambda>k. None)\<rparr>" "''1''" "''unexpected EOF''"]
    robustDecompress_salvage
      [of "\<lparr>openResult = None, newReaderResult = None, mkdirResult = None, createOutput = None,
      reads = [], lastRead = ('''', ReadError ''gzip: invalid checksum''),
      writeResult = (\<lambda>k. None)\<rparr>" "''''" "''gzip: invalid checksum''"]
  by simp

section \<open>Properties of the ledger\<close>

lemma collectOne_apply:
  "processedFiles (collectOne res st) f
     = (if err res = None \<and> fileName res = f then Some True else processedFiles st f)"
  by (simp add: collectOne_def Let_def)

lemma collectResults_apply:
  "processedFiles (collectResults rs st) f
     = (if \<exists>r \<in> set rs. err r = None \<and> fileName r = f then Some True
        else processedFiles st f)"
proof (induction rs arbitrary: st)
  case Nil
  show ?case by simp
next
  case (Cons r rs)
  show ?case by (auto simp: Cons.IH collectOne_apply)
qed

text \<open>
  Claim C1, as the code has it. After the results are collected, a file name is marked in
  the map exactly when some result with that name came without an error, or when it was in
  the map that was loaded (with its old mark): the files whose scan succeeded are added,
  no name is removed, and a file whose scan returned an error is not added. When the save
  succeeds, the ledger holds exactly the names of the map.
\<close>

theorem ledger_holds_successful_files:
  "fst (collectAndSave rs loaded createErr encodeErr ledger) f
     = (if \<exists>r \<in> set rs. err r = None \<and> fileName r = f then Some True else loaded f)
   \<and> (createErr = None \<and> encodeErr = None \<longrightarrow>
        snd (collectAndSave rs loaded createErr encodeErr ledger)
          = dom (fst (collectAndSave rs loaded createErr encodeErr ledger)))"
  by (auto simp: collectAndSave_def Let_def collectResults_apply saveProcessedFiles_def)

text \<open>The theorem at a run with one failed and one successful scan and an old entry.\<close>

theorem ledger_holds_successful_files_witness:
  "fst (collectAndSave
          [\<lparr>fileName = ''bad.json.gz'', recordsFound = 0, err = Some ''unexpected EOF''\<rparr>,
           \<lparr>fileName = ''ok.json.gz'', recordsFound = 2, err = None\<rparr>]
          [''old.json.gz'' \<mapsto> True] None None {''old.json.gz''}) ''ok.json.gz'' = Some True
   \<and> fst (collectAndSave
          [\<lparr>fileName = ''bad.json.gz'', recordsFound = 0, err = Some ''unexpected EOF''\<rparr>,
           \<lparr>fileName = ''ok.json.gz'', recordsFound = 2, err = None\<rparr>]
          [''old.json.gz'' \<mapsto> True] None None {''old.json.gz''}) ''old.json.gz'' = Some True
   \<and> snd (collectAndSave
          [\<lparr>fileName = ''bad.json.gz'', recordsFound = 0, err = Some ''unexpected EOF''\<rparr>,
           \<lparr>fileName = ''ok.json.gz'', recordsFound = 2, err = None\<rparr>]
          [''old.json.gz'' \<mapsto> True] None None {''old.json.gz''})
       = dom (fst (collectAndSave
          [\<lparr>fileName = ''bad.json.gz'', recordsFound = 0, err = Some ''unexpected EOF''\<rparr>,
           \<lparr>fileName = ''ok.json.gz'', recordsFound = 2, err = None\<rparr>]
          [''old.json.gz'' \<mapsto> True] None None {''old.json.gz''}))"
  using ledger_holds_successful_files
      [of "[\<lparr>fileName = ''bad.json.gz'', recordsFound = 0, err = Some ''unexpected EOF''\<rparr>,
           \<lparr>fileName = ''ok.json.gz'', recordsFound = 2, err = None\<rparr>]"
          "[''old.json.gz'' \<mapsto> True]" None None "{''old.json.gz''}" "''ok.json.gz''"]
    ledger_holds_successful_files
      [of "[\<lparr>fileName = ''bad.json.gz'', recordsFound = 0, err = Some ''unexpected EOF''\<rparr>,
           \<lparr>fileName = ''ok.json.gz'', recordsFound = 2, err = None\<rparr>]"
          "[''old.json.gz'' \<mapsto> True]" None None "{''old.json.gz''}" "''old.json.gz''"]
  by simp

text \<open>
  Claim C1 as stated fails: a file whose scan returned an error is neither in the map nor in
  the ledger after the run.
\<close>

theorem ledger_counterexample:
  "fst (collectAndSave
          [\<lparr>fileName = ''a.json.gz'', recordsFound = 0,
            err = Some ''failed to decode record: unexpected EOF''\<rparr>]
          Map.empty None None {}) ''a.json.gz'' = None
   \<and> ''a.json.gz'' \<notin> snd (collectAndSave
          [\<lparr>fileName = ''a.json.gz'', recordsFound = 0,
            err = Some ''failed to decode record: unexpected EOF''\<rparr>]
          Map.empty None None {})"
  by (simp add: collectAndSave_def collectOne_def saveProcessedFiles_def)

section \<open>Properties of the scanners\<close>

lemma encodeMatches_ok:
  assumes "\<forall>k. encodeResult src k = None"
  shows "encodeMatches src msg ms n out
     = ((n + int (length ms), None), out\<lparr>written := written out @ ms\<rparr>)"
  using assms by (induction ms arbitrary: n out) simp_all

text \<open>
  Over values the decoder gets past, the array loop of \<^verbatim>\<open>processFileAndWriteMatches\<close>
  writes the matching records, warns about the rejected values and goes on with what
  follows.
\<close>

lemma arrayElements_prefix:
  assumes "\<forall>k. encodeResult src k = None" and "readable es"
  shows "arrayElements src \<lparr>pending = es @ later, halted = None\<rparr> n out
     = arrayElements src \<lparr>pending = later, halted = None\<rparr>
         (n + int (length (matchingRecords es)))
         (out\<lparr>written := written out @ matchingRecords es,
              warned := warned out @ map (skipWarning src) (rejected es)\<rparr>)"
  using assms
proof (induction es arbitrary: n out)
  case Nil
  show ?case by simp
next
  case (Cons d es)
  show ?case
  proof (cases d)
    case (Decoded obj)
    with Cons show ?thesis
      by (subst arrayElements.simps) (simp add: More_def Decode_def add.assoc)
  next
    case (Rejected e)
    with Cons show ?thesis
      by (subst arrayElements.simps) (simp add: More_def Decode_def)
  next
    case (Stuck e)
    with Cons.prems show ?thesis by simp
  qed
qed

lemma arrayElements_readable:
  assumes "\<forall>k. encodeResult src k = None" and "readable es"
  shows "arrayElements src \<lparr>pending = es, halted = None\<rparr> n out
     = Some ((n + int (length (matchingRecords es)), None),
        out\<lparr>written := written out @ matchingRecords es,
            warned := warned out @ map (skipWarning src) (rejected es)\<rparr>)"
proof -
  have "arrayElements src \<lparr>pending = [], halted = None\<rparr> m o' = Some ((m, None), o')" for m o'
    by (subst arrayElements.simps) (simp add: More_def)
  with arrayElements_prefix [OF assms, of "[]" n out] show ?thesis by simp
qed

text \<open>A decoder that is stuck keeps the loop going: the loop returns nothing.\<close>

lemma arrayElements_halted:
  assumes "arrayElements src dec n out = Some r"
  shows "halted dec = None"
  using assms
proof (induction arbitrary: r rule: arrayElements.raw_induct [rotated -1, consumes 1])
  case (1 arrayElements' src dec n out r)
  show ?case
  proof (cases "halted dec")
    case None
    then show ?thesis .
  next
    case (Some e)
    with 1(2) have "arrayElements' src dec n (out\<lparr>warned := warned out @ [skipWarning src e]\<rparr>)
        = Some r"
      by (simp add: More_def Decode_def)
    from 1(1) [OF this] Some show ?thesis by simp
  qed
qed

lemma arrayElements_stuck:
  assumes "\<forall>k. encodeResult src k = None" and "readable es"
  shows "arrayElements src \<lparr>pending = es @ Stuck e # later, halted = None\<rparr> n out = None"
proof -
  have "arrayElements src \<lparr>pending = Stuck e # later, halted = None\<rparr> m o' = None" for m o'
  proof (cases "arrayElements src \<lparr>pending = Stuck e # later, halted = Some e\<rparr> m
      (o'\<lparr>warned := warned o' @ [skipWarning src e]\<rparr>)")
    case None
    then show ?thesis
      by (subst arrayElements.simps) (simp add: More_def Decode_def)
  next
    case (Some r)
    from arrayElements_halted [OF this] show ?thesis by simp
  qed
  with arrayElements_prefix [OF assms, of "Stuck e # later" n out] show ?thesis by simp
qed

lemma stuck_decoder_never_returns:
  assumes "\<forall>k. encodeResult src k = None" and "openFailure src = None"
    and "firstNonSpace (leading src) = Some (CHR ''['')" and "openingToken src = Inr t"
    and "elements src = es @ Stuck e # later" and "readable es"
  shows "processFileAndWriteMatches src out = None"
  using assms by (simp add: processFileAndWriteMatches_def arrayElements_stuck)

lemma processArrayLoop_stops:
  assumes "\<forall>k. encodeResult src k = None" and "decodeError bad = Some e"
  shows "processArrayLoop src (map Decoded good @ bad # later) n out
     = ((n + int (length (filter isMatch good)), Some (''failed to decode record: '' @ e)),
        out\<lparr>written := written out @ filter isMatch good\<rparr>)"
  using assms
proof (induction good arbitrary: n out)
  case Nil
  then show ?case by (cases bad) simp_all
next
  case (Cons obj good)
  then show ?case by simp
qed

lemma processObjectsLoop_stops:
  assumes "\<forall>k. encodeResult src k = None" and "decodeError bad = Some e"
  shows "processObjectsLoop src (map Decoded good @ bad # later) n out
     = ((n + int (length (concat (map emitted good))),
         Some (''failed to decode record: '' @ e)),
        out\<lparr>written := written out @ concat (map emitted good)\<rparr>)"
  using assms
proof (induction good arbitrary: n out)
  case Nil
  then show ?case by (cases bad) simp_all
next
  case (Cons obj good)
  show ?case
  proof (cases "isMatch obj")
    case True
    with Cons show ?thesis by (simp add: emitted_def)
  next
    case False
    with Cons show ?thesis by (simp add: emitted_def encodeMatches_ok)
  qed
qed

lemma Decode_first_error:
  assumes "decodeError bad = Some e"
  shows "fst (Decode \<lparr>pending = bad # later, halted = None\<rparr>) = Inl e"
  using assms by (cases bad) (simp_all add: Decode_def)

text \<open>
  Claim C2, as the code has it; every write to the output is taken to succeed. In
  \<^verbatim>\<open>processFileAndWriteMatches\<close>, on an array in which the decoder gets past every value,
  a value that does not decode into a record is skipped with a warning and the scan goes
  on: the result is the count of all matching records of the array, without an error. (What
  happens when the decoder is stuck is left out here; see the lemma before.) In the
  streaming scanner \<^verbatim>\<open>processArray\<close> the first value that does not decode ends the scan
  with an error; only the matches before it are written. For a top-level object, a decode
  error ends the scan with an error in both scanners.
\<close>

theorem decode_errors_by_scanner:
  assumes "\<forall>k. encodeResult src k = None"
  shows "(openFailure src = None \<and> firstNonSpace (leading src) = Some (CHR ''['')
          \<and> openingToken src = Inr t \<and> readable (elements src) \<longrightarrow>
          processFileAndWriteMatches src out
            = Some ((int (length (matchingRecords (elements src))), None),
               out\<lparr>written := written out @ matchingRecords (elements src),
                   warned := warned out @ map (skipWarning src) (rejected (elements src))\<rparr>))
       \<and> (firstNonSpace (leading src) = Some (CHR ''['') \<and> openingToken src = Inr (CHR ''['')
          \<and> elements src = map Decoded good @ bad # later \<and> decodeError bad = Some e \<longrightarrow>
          ProcessMatches src out
            = ((int (length (filter isMatch good)), Some (''failed to decode record: '' @ e)),
               out\<lparr>written := written out @ filter isMatch good\<rparr>))
       \<and> (openFailure src = None \<and> firstNonSpace (leading src) = Some (CHR ''{'')
          \<and> elements src = bad # later \<and> decodeError bad = Some e \<longrightarrow>
          processFileAndWriteMatches src out
            = Some ((0, Some (''failed to decode root object: '' @ e)), out))
       \<and> (firstNonSpace (leading src) = Some (CHR ''{'')
          \<and> elements src = map Decoded good @ bad # later \<and> decodeError bad = Some e \<longrightarrow>
          ProcessMatches src out
            = ((int (length (concat (map emitted good))),
                Some (''failed to decode record: '' @ e)),
               out\<lparr>written := written out @ concat (map emitted good)\<rparr>))"
proof (intro conjI impI)
  assume "openFailure src = None \<and> firstNonSpace (leading src) = Some (CHR ''['')
          \<and> openingToken src = Inr t \<and> readable (elements src)"
  then show "processFileAndWriteMatches src out
            = Some ((int (length (matchingRecords (elements src))), None),
               out\<lparr>written := written out @ matchingRecords (elements src),
                   warned := warned out @ map (skipWarning src) (rejected (elements src))\<rparr>)"
    by (simp add: processFileAndWriteMatches_def arrayElements_readable [OF assms])
next
  assume "firstNonSpace (leading src) = Some (CHR ''['') \<and> openingToken src = Inr (CHR ''['')
          \<and> elements src = map Decoded good @ bad # later \<and> decodeError bad = Some e"
  then show "ProcessMatches src out
            = ((int (length (filter isMatch good)), Some (''failed to decode record: '' @ e)),
               out\<lparr>written := written out @ filter isMatch good\<rparr>)"
    by (simp add: ProcessMatches_def processArray_def processArrayLoop_stops [OF assms])
next
  assume "openFailure src = None \<and> firstNonSpace (leading src) = Some (CHR ''{'')
          \<and> elements src = bad # later \<and> decodeError bad = Some e"
  then show "processFileAndWriteMatches src out
            = Some ((0, Some (''failed to decode root object: '' @ e)), out)"
    by (simp add: processFileAndWriteMatches_def Decode_first_error)
next
  assume "firstNonSpace (leading src) = Some (CHR ''{'')
          \<and> elements src = map Decoded good @ bad # later \<and> decodeError bad = Some e"
  then show "ProcessMatches src out
            = ((int (length (concat (map emitted good))),
                Some (''failed to decode record: '' @ e)),
               out\<lparr>written := written out @ concat (map emitted good)\<rparr>)"
    by (simp add: ProcessMatches_def processObjects_def processObjectsLoop_stops [OF assms])
qed

text \<open>
  The theorem at the array \<^verbatim>\<open>[1,{"billing_code":"99283"}]\<close>, at an array and at objects
  that are cut off.
\<close>

theorem decode_errors_by_scanner_witness:
  "processFileAndWriteMatches mixedArray \<lparr>written = [], warned = []\<rparr>
     = Some ((1, None),
        \<lparr>written = [[(''billing_code'', JString ''99283'')]],
         warned = [skipWarning mixedArray
           ''json: cannot unmarshal number into Go value of type map[string]interface {}'']\<rparr>)
   \<and> ProcessMatches (mixedArray\<lparr>elements := [Decoded [(''billing_code'', JString ''99283'')],
                                              Stuck ''unexpected EOF'']\<rparr>)
        \<lparr>written = [], warned = []\<rparr>
     = ((1, Some ''failed to decode record: unexpected EOF''),
        \<lparr>written = [[(''billing_code'', JString ''99283'')]], warned = []\<rparr>)
   \<and> processFileAndWriteMatches
        (mixedArray\<lparr>leading := ''{'', elements := [Stuck ''unexpected EOF'']\<rparr>)
        \<lparr>written = [], warned = []\<rparr>
     = Some ((0, Some ''failed to decode root object: unexpected EOF''),
        \<lparr>written = [], warned = []\<rparr>)
   \<and> ProcessMatches (mixedArray\<lparr>leading := ''{'', elements := [Stuck ''unexpected EOF'']\<rparr>)
        \<lparr>written = [], warned = []\<rparr>
     = ((0, Some ''failed to decode record: unexpected EOF''),
        \<lparr>written = [], warned = []\<rparr>)"
proof -
  have m: "isMatch [(''billing_code'', JString ''99283'')]"
    by (simp add: isMatch_def targetCodes_def present_def)
  show ?thesis
    using decode_errors_by_scanner [of mixedArray "CHR ''[''" "\<lparr>written = [], warned = []\<rparr>"
        "[]" "Stuck ''unexpected EOF''" "[]" "''unexpected EOF''"]
      decode_errors_by_scanner [of "mixedArray\<lparr>elements :=
          [Decoded [(''billing_code'', JString ''99283'')], Stuck ''unexpected EOF'']\<rparr>"
        "CHR ''[''" "\<lparr>written = [], warned = []\<rparr>"
        "[[(''billing_code'', JString ''99283'')]]" "Stuck ''unexpected EOF''" "[]"
        "''unexpected EOF''"]
      decode_errors_by_scanner [of
        "mixedArray\<lparr>leading := ''{'', elements := [Stuck ''unexpected EOF'']\<rparr>" "CHR ''[''"
        "\<lparr>written = [], warned = []\<rparr>"
        "[]" "Stuck ''unexpected EOF''" "[]" "''unexpected EOF''"]
    by (simp add: mixedArray_def m isSpace_def)
qed

text \<open>
  Claim C2 as stated fails for the streaming scanner: on the array
  \<^verbatim>\<open>[1,{"billing_code":"99283"}]\<close> the scan ends with an error at the first value, nothing
  is warned about, and the matching record after it is not written.
\<close>

theorem array_decode_error_counterexample:
  "ProcessMatches mixedArray \<lparr>written = [], warned = []\<rparr>
     = ((0, Some (''failed to decode record: ''
           @ ''json: cannot unmarshal number into Go value of type map[string]interface {}'')),
        \<lparr>written = [], warned = []\<rparr>)"
  by (simp add: ProcessMatches_def processArray_def mixedArray_def isSpace_def)

section \<open>Properties of the worker pool\<close>

lemma remdups_adj_snoc:
  "remdups_adj (xs @ [x])
     = (if xs \<noteq> [] \<and> last xs = x then remdups_adj xs else remdups_adj xs @ [x])"
  by (induction xs rule: remdups_adj.induct) auto

lemma contiguous_snoc:
  assumes "contiguous xs" and "x \<in> set xs \<longrightarrow> last xs = x"
  shows "contiguous (xs @ [x])"
proof (cases "xs \<noteq> [] \<and> last xs = x")
  case True
  with assms(1) show ?thesis by (simp add: contiguous_def remdups_adj_snoc)
next
  case False
  with assms(2) have "x \<notin> set xs" by (cases "xs = []") auto
  with assms(1) False show ?thesis
    by (simp add: contiguous_def remdups_adj_snoc)
qed

lemma writtenFiles_simps [simp]:
  "writtenFiles (s\<lparr>jobs := js\<rparr>) = writtenFiles s"
  "writtenFiles (s\<lparr>mutex := m\<rparr>) = writtenFiles s"
  "writtenFiles (s\<lparr>workers := ws\<rparr>) = writtenFiles s"
  "writtenFiles (s\<lparr>sent := fs\<rparr>) = writtenFiles s"
  "writtenFiles (s\<lparr>shared := shared s @ [(f, r)]\<rparr>) = writtenFiles s @ [f]"
  by (simp_all add: writtenFiles_def)

lemma poolInv_start: "distinct files \<Longrightarrow> poolInv (startPool files)"
  by (simp add: poolInv_def startPool_def contiguous_def writtenFiles_def)

lemma poolInv_receive:
  assumes "poolInv s" and "workers s i = Idle" and "jobs s = f # fs"
  shows "poolInv (s\<lparr>jobs := fs, workers := (workers s)(i := Claimed f)\<rparr>)"
  using assms unfolding poolInv_def
  by (auto split: if_splits)

lemma poolInv_lock:
  assumes inv: "poolInv s" and c: "workers s i = Claimed f" and free: "mutex s = None"
  shows "poolInv (s\<lparr>mutex := Some i, workers := (workers s)(i := Writing f (emits f))\<rparr>)"
proof -
  from inv c have q: "f \<notin> set (jobs s)"
    unfolding poolInv_def by (metis owned.simps(2))
  from inv c have own: "\<And>j g. owned (workers s j) = Some g \<Longrightarrow> j \<noteq> i \<Longrightarrow> g \<noteq> f"
    unfolding poolInv_def by (metis owned.simps(2))
  from inv free have nobody: "\<And>j g qs. workers s j \<noteq> Writing g qs"
    unfolding poolInv_def by (metis option.distinct(1))
  from inv c have fresh: "f \<notin> set (writtenFiles s)"
    unfolding poolInv_def by blast
  show ?thesis
    using inv c q own nobody fresh unfolding poolInv_def
    by (auto split: if_splits)
qed

lemma poolInv_D:
  assumes "poolInv s"
  shows "distinct (jobs s)"
    and "\<And>i f. owned (workers s i) = Some f \<Longrightarrow> f \<notin> set (jobs s)"
    and "\<And>i j f. owned (workers s i) = Some f \<Longrightarrow> owned (workers s j) = Some f \<Longrightarrow> i = j"
    and "\<And>i f rs. workers s i = Writing f rs \<Longrightarrow> mutex s = Some i"
    and "\<And>f. f \<in> set (jobs s) \<Longrightarrow> f \<notin> set (writtenFiles s)"
    and "\<And>i f. workers s i = Claimed f \<Longrightarrow> f \<notin> set (writtenFiles s)"
    and "\<And>i f rs. workers s i = Writing f rs \<Longrightarrow> f \<in> set (writtenFiles s)
           \<Longrightarrow> last (writtenFiles s) = f"
    and "contiguous (writtenFiles s)"
  using assms unfolding poolInv_def by blast+

lemma poolInv_I:
  assumes "distinct (jobs s)"
    and "\<And>i f. owned (workers s i) = Some f \<Longrightarrow> f \<notin> set (jobs s)"
    and "\<And>i j f. owned (workers s i) = Some f \<Longrightarrow> owned (workers s j) = Some f \<Longrightarrow> i = j"
    and "\<And>i f rs. workers s i = Writing f rs \<Longrightarrow> mutex s = Some i"
    and "\<And>f. f \<in> set (jobs s) \<Longrightarrow> f \<notin> set (writtenFiles s)"
    and "\<And>i f. workers s i = Claimed f \<Longrightarrow> f \<notin> set (writtenFiles s)"
    and "\<And>i f rs. workers s i = Writing f rs \<Longrightarrow> f \<in> set (writtenFiles s)
           \<Longrightarrow> last (writtenFiles s) = f"
    and "contiguous (writtenFiles s)"
  shows "poolInv s"
  unfolding poolInv_def using assms by blast

lemma poolInv_write:
  assumes inv: "poolInv s" and w: "workers s i = Writing f (r # rs)"
  shows "poolInv (s\<lparr>shared := shared s @ [(f, r)], workers := (workers s)(i := Writing f rs)\<rparr>)"
    (is "poolInv ?s'")
proof (rule poolInv_I)
  note D = poolInv_D [OF inv]
  have ow: "owned (workers s i) = Some f" using w by simp
  have own': "owned (workers ?s' j) = owned (workers s j)" for j
    using w by simp
  have other: "g \<noteq> f" if "owned (workers s j) = Some g" "j \<noteq> i" for j g
    using D(3) [OF that(1), of i] ow that(2) by auto
  show "distinct (jobs ?s')" using D(1) by simp
  show "g \<notin> set (jobs ?s')" if "owned (workers ?s' j) = Some g" for j g
    using that D(2) [of j g] unfolding own' by simp
  show "j = k" if "owned (workers ?s' j) = Some g" "owned (workers ?s' k) = Some g" for j k g
    using that D(3) [of j g k] unfolding own' by simp
  show "mutex ?s' = Some j" if "workers ?s' j = Writing g qs" for j g qs
  proof (cases "j = i")
    case True
    then show ?thesis using D(4) [OF w] by simp
  next
    case False
    with that have "workers s j = Writing g qs" by simp
    from D(4) [OF this] show ?thesis by simp
  qed
  show "g \<notin> set (writtenFiles ?s')" if "g \<in> set (jobs ?s')" for g
  proof -
    from that have q: "g \<in> set (jobs s)" by simp
    from D(2) [OF ow] q have "g \<noteq> f" by auto
    with D(5) [OF q] show ?thesis by simp
  qed
  show "g \<notin> set (writtenFiles ?s')" if "workers ?s' j = Claimed g" for j g
  proof -
    from that have ji: "j \<noteq> i" by (cases "j = i") simp_all
    with that have c: "workers s j = Claimed g" by simp
    then have "owned (workers s j) = Some g" by simp
    from other [OF this ji] D(6) [OF c] show ?thesis by simp
  qed
  show "last (writtenFiles ?s') = g"
    if "workers ?s' j = Writing g qs" "g \<in> set (writtenFiles ?s')" for j g qs
  proof (cases "j = i")
    case True
    with that(1) have "g = f" by simp
    then show ?thesis by simp
  next
    case False
    with that(1) have wj: "workers s j = Writing g qs" by simp
    from D(4) [OF wj] D(4) [OF w] False show ?thesis by simp
  qed
  show "contiguous (writtenFiles ?s')"
    using contiguous_snoc [OF D(8), of f] D(7) [OF w] by simp
qed

lemma poolInv_unlock:
  assumes inv: "poolInv s" and w: "workers s i = Writing f []"
  shows "poolInv (s\<lparr>mutex := None, workers := (workers s)(i := Reporting f)\<rparr>)"
    (is "poolInv ?s'")
proof (rule poolInv_I)
  note D = poolInv_D [OF inv]
  have only: "j = i" if "workers s j = Writing g qs" for j g qs
    using D(4) [OF that] D(4) [OF w] by simp
  have own': "owned (workers s j) = Some g" if "owned (workers ?s' j) = Some g" for j g
    using that by (cases "j = i") simp_all
  show "distinct (jobs ?s')" using D(1) by simp
  show "g \<notin> set (jobs ?s')" if "owned (workers ?s' j) = Some g" for j g
    using D(2) [OF own' [OF that]] by simp
  show "j = k" if "owned (workers ?s' j) = Some g" "owned (workers ?s' k) = Some g" for j k g
    using D(3) [OF own' [OF that(1)] own' [OF that(2)]] .
  show "mutex ?s' = Some j" if "workers ?s' j = Writing g qs" for j g qs
  proof -
    from that have ji: "j \<noteq> i" by (cases "j = i") simp_all
    with that have "workers s j = Writing g qs" by simp
    from only [OF this] ji show ?thesis by simp
  qed
  show "g \<notin> set (writtenFiles ?s')" if "g \<in> set (jobs ?s')" for g
    using that D(5) [of g] by simp
  show "g \<notin> set (writtenFiles ?s')" if "workers ?s' j = Claimed g" for j g
  proof -
    from that have ji: "j \<noteq> i" by (cases "j = i") simp_all
    with that have "workers s j = Claimed g" by simp
    from D(6) [OF this] show ?thesis by simp
  qed
  show "last (writtenFiles ?s') = g"
    if "workers ?s' j = Writing g qs" "g \<in> set (writtenFiles ?s')" for j g qs
  proof -
    from that(1) have ji: "j \<noteq> i" by (cases "j = i") simp_all
    with that(1) have "workers s j = Writing g qs" by simp
    from only [OF this] ji show ?thesis by simp
  qed
  show "contiguous (writtenFiles ?s')" using D(8) by simp
qed

lemma poolInv_send:
  assumes "poolInv s" and "workers s i = Reporting f"
  shows "poolInv (s\<lparr>sent := sent s @ [f], workers := (workers s)(i := Idle)\<rparr>)"
  using assms unfolding poolInv_def
  by (auto split: if_splits)

lemma poolInv_step:
  assumes "step numWorkers emits s s'" and "poolInv s"
  shows "poolInv s'"
  using assms
proof (cases rule: step.cases)
  case (do_receive i f fs)
  with assms(2) show ?thesis by (simp add: poolInv_receive)
next
  case (do_lock i f)
  with assms(2) show ?thesis by (simp add: poolInv_lock)
next
  case (do_write i f r rs)
  with assms(2) show ?thesis by (simp add: poolInv_write)
next
  case (do_unlock i f)
  with assms(2) show ?thesis by (simp add: poolInv_unlock)
next
  case (do_send i f)
  with assms(2) show ?thesis by (simp add: poolInv_send)
qed

lemma poolInv_reachable:
  assumes "(step numWorkers emits)\<^sup>*\<^sup>* (startPool files) s" and "distinct files"
  shows "poolInv s"
  using assms
proof (induction rule: rtranclp_induct)
  case base
  then show ?case by (simp add: poolInv_start)
next
  case (step s s')
  then show ?case by (blast intro: poolInv_step)
qed

text \<open>
  Claim C8. Let the queued files be distinct. In every state that the workers can reach, in
  whatever order their steps interleave, the records in the shared output are contiguous by
  file: the records of one file form one block. At most one worker is writing, and a worker
  that writes owns the mutex: it took it before its first record and gives it back only
  after its last.
\<close>

theorem records_of_a_file_are_contiguous:
  assumes "distinct filesToProcess"
    and "(step numWorkers emits)\<^sup>*\<^sup>* (startPool filesToProcess) s"
  shows "contiguous (map fst (shared s))
       \<and> (\<forall>i j f g rs qs. workers s i = Writing f rs \<and> workers s j = Writing g qs \<longrightarrow> i = j)
       \<and> (\<forall>i f rs. workers s i = Writing f rs \<longrightarrow> mutex s = Some i)"
proof -
  from poolInv_reachable [OF assms(2) assms(1)] have inv: "poolInv s" .
  then have "contiguous (map fst (shared s))"
    by (simp add: poolInv_def writtenFiles_def)
  moreover from inv have own: "\<forall>i f rs. workers s i = Writing f rs \<longrightarrow> mutex s = Some i"
    unfolding poolInv_def by blast
  moreover from own
  have "\<forall>i j f g rs qs. workers s i = Writing f rs \<and> workers s j = Writing g qs \<longrightarrow> i = j"
    by (metis option.inject)
  ultimately show ?thesis by blast
qed

text \<open>The theorem at a state reached by three steps of worker 0.\<close>

theorem records_of_a_file_are_contiguous_witness:
  "contiguous (map fst (shared examplePool))
   \<and> workers examplePool 0 = Writing ''a.json.gz'' [2]
   \<and> mutex examplePool = Some 0"
proof -
  let ?fs = "[''a.json.gz'', ''b.json.gz'']"
  let ?emits = "\<lambda>f :: string. [1, 2 :: nat]"
  let ?s0 = "startPool ?fs :: nat pool"
  let ?s1 = "?s0\<lparr>jobs := [''b.json.gz''],
                 workers := (workers ?s0)(0 := Claimed ''a.json.gz'')\<rparr>"
  let ?s2 = "?s1\<lparr>mutex := Some 0,
                 workers := (workers ?s1)(0 := Writing ''a.json.gz'' (?emits ''a.json.gz''))\<rparr>"
  let ?s3 = "?s2\<lparr>shared := shared ?s2 @ [(''a.json.gz'', 1)],
                 workers := (workers ?s2)(0 := Writing ''a.json.gz'' [2])\<rparr>"
  have d: "distinct ?fs" by simp
  have 1: "step 2 ?emits ?s0 ?s1"
    by (rule do_receive) (simp_all add: startPool_def)
  have 2: "step 2 ?emits ?s1 ?s2"
    by (rule do_lock) (simp_all add: startPool_def)
  have 3: "step 2 ?emits ?s2 ?s3"
    by (rule do_write [where r = 1 and rs = "[2]"]) (simp_all add: startPool_def)
  have reach: "(step 2 ?emits)\<^sup>*\<^sup>* ?s0 ?s3"
    using 1 2 3 by (meson rtranclp.rtrancl_into_rtrancl rtranclp.rtrancl_refl)
  have eq: "?s3 = examplePool"
    by (simp add: startPool_def examplePool_def)
  from records_of_a_file_are_contiguous [OF d reach] show ?thesis
    unfolding eq by (simp add: examplePool_def)
qed

end
